theory Spec2Isabelle
  imports Main
begin

section \<open>JavaScript values\<close>

text \<open>
  The credential file and every response body are JSON documents, read with
  \<^verbatim>\<open>JSON.parse\<close> and used untyped. A parsed document is a \<open>json\<close> value; the result of
  reading a property is a \<open>jsval\<close>, where \<open>None\<close> is JavaScript's \<^verbatim>\<open>undefined\<close>.
  JSON numbers are restricted to integers.
\<close>

datatype json =
    JNull
  | JBool bool
  | JNum int
  | JStr string
  | JArr "json list"
  | JObj "(string \<times> json) list"

type_synonym jsval = "json option"

datatype error =
    Error string
  | SyntaxError
  | TypeError
  | RangeError
  | RequestError string
  | FsError

text \<open>Truthiness, as tested by \<^verbatim>\<open>if (v)\<close>, \<^verbatim>\<open>a && b\<close> and \<^verbatim>\<open>a || b\<close>.\<close>

fun truthy :: "jsval \<Rightarrow> bool" where
  "truthy None = False"
| "truthy (Some JNull) = False"
| "truthy (Some (JBool b)) = b"
| "truthy (Some (JNum n)) = (n \<noteq> 0)"
| "truthy (Some (JStr s)) = (s \<noteq> [])"
| "truthy (Some (JArr xs)) = True"
| "truthy (Some (JObj kvs)) = True"

text \<open>\<^verbatim>\<open>a || b\<close> evaluates to \<open>a\<close> when \<open>a\<close> is truthy and to \<open>b\<close> otherwise.\<close>

definition js_or :: "jsval \<Rightarrow> jsval \<Rightarrow> jsval" where
  "js_or a b = (if truthy a then a else b)"

text \<open>
  \<^verbatim>\<open>v.key\<close> for the property names this program reads: a TypeError on \<^verbatim>\<open>null\<close>, the
  entry of an object, and \<^verbatim>\<open>undefined\<close> on a boolean, number, string or array (none of
  the names read here is a built-in property of those).
\<close>

fun get_prop :: "json \<Rightarrow> string \<Rightarrow> error + jsval" where
  "get_prop JNull k = Inl TypeError"
| "get_prop (JObj kvs) k = Inr (map_of kvs k)"
| "get_prop v k = Inr None"

text \<open>\<^verbatim>\<open>v?.key\<close>: \<^verbatim>\<open>undefined\<close> when \<open>v\<close> is \<^verbatim>\<open>undefined\<close> or \<^verbatim>\<open>null\<close>.\<close>

fun opt_prop :: "jsval \<Rightarrow> string \<Rightarrow> jsval" where
  "opt_prop None k = None"
| "opt_prop (Some JNull) k = None"
| "opt_prop (Some (JObj kvs)) k = map_of kvs k"
| "opt_prop (Some v) k = None"

text \<open>Decimal rendering of numbers, as \<^verbatim>\<open>Number.prototype.toString\<close> gives for integers.\<close>

definition digit_char :: "nat \<Rightarrow> char" where
  "digit_char n = ''0123456789'' ! n"

function dec :: "nat \<Rightarrow> string" where
  "dec n = (if n < 10 then [digit_char n] else dec (n div 10) @ [digit_char (n mod 10)])"
  by pat_completeness auto
termination
  by (relation "measure id") auto

declare dec.simps [simp del]

definition int_str :: "int \<Rightarrow> string" where
  "int_str i = (if i < 0 then ''-'' @ dec (nat (- i)) else dec (nat i))"

fun join :: "string \<Rightarrow> string list \<Rightarrow> string" where
  "join sep [] = []"
| "join sep [x] = x"
| "join sep (x # y # ys) = x @ sep @ join sep (y # ys)"

text \<open>
  The built-ins of the JavaScript runtime that the program calls and that are taken as
  given: \<^verbatim>\<open>JSON.parse\<close> (\<open>None\<close> when it throws a SyntaxError), \<^verbatim>\<open>JSON.stringify\<close> with
  its indentation argument, the conversion of a string to a number and \<^verbatim>\<open>Date.parse\<close>
  (\<open>None\<close> for NaN), \<^verbatim>\<open>Date.prototype.toISOString\<close> on a valid time value,
  \<^verbatim>\<open>Number.prototype.toString\<close> on the integers that are not safe integers, and the two
  module constants \<^verbatim>\<open>OAUTH_PATH\<close> (joined from the home directory when the module loads)
  and \<^verbatim>\<open>TIMEZONE\<close> (imported from the configuration module).
\<close>

record runtime =
  JSON_parse :: "string \<Rightarrow> json option"
  JSON_stringify :: "nat \<Rightarrow> json \<Rightarrow> string"
  Number_of_string :: "string \<Rightarrow> int option"
  Date_parse :: "string \<Rightarrow> int option"
  toISOString :: "int \<Rightarrow> string"
  Number_toString :: "int \<Rightarrow> string"
  OAUTH_PATH :: string
  TIMEZONE :: string

text \<open>
  A number as a string: the decimal digits for a safe integer (at most \<open>2\<^sup>5\<^sup>3 - 1\<close> in
  magnitude). Beyond the safe integers JavaScript prints the shortest digits that read
  back as the same double, in exponent notation from \<open>10\<^sup>2\<^sup>1\<close> on; that rendering is the
  runtime's.
\<close>

definition number_str :: "runtime \<Rightarrow> int \<Rightarrow> string" where
  "number_str rt n = (if \<bar>n\<bar> \<le> 9007199254740991 then int_str n else Number_toString rt n)"

text \<open>
  Whether a value converts to a primitive. An object made by \<^verbatim>\<open>JSON.parse\<close> converts
  through \<^verbatim>\<open>Object.prototype.toString\<close> unless it has a property \<^verbatim>\<open>toString\<close> of its own,
  which is never a function: then the conversion throws a TypeError. An array converts by
  joining its elements, so it converts when its elements do.
\<close>

fun converts_json :: "json \<Rightarrow> bool" where
  "converts_json (JObj kvs) = (''toString'' \<notin> set (map fst kvs))"
| "converts_json (JArr xs) = (\<forall>x \<in> set xs. converts_json x)"
| "converts_json v = True"

definition converts :: "jsval \<Rightarrow> bool" where
  "converts v = (case v of None \<Rightarrow> True | Some j \<Rightarrow> converts_json j)"

text \<open>
  The string of a value that converts: a string is itself, an array joins its elements
  with commas (\<^verbatim>\<open>null\<close> elements as the empty string), any other object is
  \<^verbatim>\<open>[object Object]\<close>.
\<close>

fun json_str :: "runtime \<Rightarrow> json \<Rightarrow> string" where
  "json_str rt JNull = ''null''"
| "json_str rt (JBool b) = (if b then ''true'' else ''false'')"
| "json_str rt (JNum n) = number_str rt n"
| "json_str rt (JStr s) = s"
| "json_str rt (JArr xs) = join '','' (map (\<lambda>x. if x = JNull then [] else json_str rt x) xs)"
| "json_str rt (JObj kvs) = ''[object Object]''"

definition template :: "runtime \<Rightarrow> jsval \<Rightarrow> string" where
  "template rt v = (case v of None \<Rightarrow> ''undefined'' | Some j \<Rightarrow> json_str rt j)"

text \<open>A value inside a template literal \<^verbatim>\<open>`${v}`\<close>: its string, or the TypeError.\<close>

definition to_str :: "runtime \<Rightarrow> jsval \<Rightarrow> error + string" where
  "to_str rt v = (if converts v then Inr (template rt v) else Inl TypeError)"

text \<open>
  \<^verbatim>\<open>ToNumber\<close>, as applied by \<^verbatim>\<open>data.expires_in * 1000\<close>; \<open>None\<close> is NaN. An array or
  object is converted to a primitive first.
\<close>

fun to_number :: "runtime \<Rightarrow> jsval \<Rightarrow> error + int option" where
  "to_number rt None = Inr None"
| "to_number rt (Some JNull) = Inr (Some 0)"
| "to_number rt (Some (JBool b)) = Inr (Some (if b then 1 else 0))"
| "to_number rt (Some (JNum n)) = Inr (Some n)"
| "to_number rt (Some (JStr s)) = Inr (Number_of_string rt s)"
| "to_number rt (Some (JArr xs)) =
     (if converts_json (JArr xs) then Inr (Number_of_string rt (json_str rt (JArr xs)))
      else Inl TypeError)"
| "to_number rt (Some (JObj kvs)) =
     (if converts_json (JObj kvs) then Inr (Number_of_string rt (json_str rt (JObj kvs)))
      else Inl TypeError)"

text \<open>A time value is valid within 8.64e15 milliseconds of the epoch.\<close>

definition time_clip :: "int \<Rightarrow> int option" where
  "time_clip t = (if \<bar>t\<bar> \<le> 8640000000000000 then Some t else None)"

text \<open>
  \<^verbatim>\<open>new Date(v).getTime()\<close>: the value is converted to a primitive; a string is parsed,
  any other primitive is a number.
\<close>

fun date_getTime :: "runtime \<Rightarrow> jsval \<Rightarrow> error + int option" where
  "date_getTime rt None = Inr None"
| "date_getTime rt (Some JNull) = Inr (Some 0)"
| "date_getTime rt (Some (JBool b)) = Inr (Some (if b then 1 else 0))"
| "date_getTime rt (Some (JNum n)) = Inr (time_clip n)"
| "date_getTime rt (Some (JStr s)) = Inr (Date_parse rt s)"
| "date_getTime rt (Some (JArr xs)) =
     (if converts_json (JArr xs) then Inr (Date_parse rt (json_str rt (JArr xs)))
      else Inl TypeError)"
| "date_getTime rt (Some (JObj kvs)) =
     (if converts_json (JObj kvs) then Inr (Date_parse rt (json_str rt (JObj kvs)))
      else Inl TypeError)"

text \<open>
  Own enumerable properties, as copied by the spread \<^verbatim>\<open>{...v}\<close>: the entries of an
  object, the indexed elements of an array or string, nothing for other values.
\<close>

fun own_entries :: "json \<Rightarrow> (string \<times> jsval) list" where
  "own_entries (JObj kvs) = map (\<lambda>(k, v). (k, Some v)) kvs"
| "own_entries (JArr xs) = map (\<lambda>i. (dec i, Some (xs ! i))) [0..<length xs]"
| "own_entries (JStr s) = map (\<lambda>i. (dec i, Some (JStr [s ! i]))) [0..<length s]"
| "own_entries v = []"

text \<open>Assigning a property: an existing key keeps its position, a new key is appended.\<close>

fun obj_set :: "(string \<times> jsval) list \<Rightarrow> string \<Rightarrow> jsval \<Rightarrow> (string \<times> jsval) list" where
  "obj_set [] k v = [(k, v)]"
| "obj_set ((k', v') # kvs) k v = (if k' = k then (k, v) # kvs else (k', v') # obj_set kvs k v)"

text \<open>\<^verbatim>\<open>JSON.stringify\<close> leaves out the properties whose value is \<^verbatim>\<open>undefined\<close>.\<close>

fun defined_entries :: "(string \<times> jsval) list \<Rightarrow> (string \<times> json) list" where
  "defined_entries [] = []"
| "defined_entries ((k, None) # kvs) = defined_entries kvs"
| "defined_entries ((k, Some v) # kvs) = (k, v) # defined_entries kvs"

section \<open>The world of \<^verbatim>\<open>calendar-approval.ts\<close>\<close>

text \<open>
  The module talks to two HTTPS endpoints and to one file. A request is recorded with
  the values the source puts into it: the three credential fields posted to
  \<^verbatim>\<open>oauth2.googleapis.com/token\<close>, or the \<^verbatim>\<open>Authorization\<close> header and the body posted to
  \<^verbatim>\<open>/calendar/v3/calendars/primary/events\<close>.
\<close>

datatype request =
    TokenRequest (client_id: jsval) (client_secret: jsval) (refresh_token: jsval)
  | EventsInsert (authorization: string) (payload: string)

datatype response = Response (status: int) (body: string)

datatype effect =
    Sent request
  | Wrote string
  | Warned string

text \<open>
  A request either settles with a response or fails with an error event, after some time
  has passed on the clock. What the network answers may depend on everything that
  happened before. A request that never settles is outside the model.
\<close>

datatype reply = Reply (elapsed: int) (outcome: "string + response")

datatype disk_file = File (readable: bool) (writable: bool) (content: string)

record world =
  oauth_file :: "disk_file option"
  now :: int
  network :: "effect list \<Rightarrow> reply"
  trace :: "effect list"

definition EXPIRY_BUFFER_MS :: int where
  "EXPIRY_BUFFER_MS = 5 * 60 * 1000"

definition httpsRequest :: "request \<Rightarrow> world \<Rightarrow> (error + response) \<times> world" where
  "httpsRequest req w =
     (let tr = trace w @ [Sent req];
          r = network w tr;
          w' = w\<lparr>trace := tr, now := now w + elapsed r\<rparr>
      in (case outcome r of Inl e \<Rightarrow> (Inl (RequestError e), w') | Inr res \<Rightarrow> (Inr res, w')))"

record fresh_token =
  access_token :: jsval
  token_expiry :: string

text \<open>Lines 59-65 of \<^verbatim>\<open>refreshToken\<close>: the detail of a failed refresh.\<close>

definition refresh_detail :: "runtime \<Rightarrow> string \<Rightarrow> jsval" where
  "refresh_detail rt b =
     (case JSON_parse rt b of
        None \<Rightarrow> Some (JStr b)
      | Some parsed \<Rightarrow>
          (case get_prop parsed ''error_description'' of
             Inl e \<Rightarrow> Some (JStr b)
           | Inr d \<Rightarrow>
               (case get_prop parsed ''error'' of
                  Inl e \<Rightarrow> Some (JStr b)
                | Inr e \<Rightarrow> js_or (js_or d e) (Some (JStr b)))))"

text \<open>
  \<^verbatim>\<open>new Date(Date.now() + data.expires_in * 1000).toISOString()\<close>, which throws a
  RangeError on an invalid time value.
\<close>

definition new_expiry :: "runtime \<Rightarrow> int \<Rightarrow> jsval \<Rightarrow> error + string" where
  "new_expiry rt t expires_in =
     (case to_number rt expires_in of
        Inl e \<Rightarrow> Inl e
      | Inr None \<Rightarrow> Inl RangeError
      | Inr (Some n) \<Rightarrow>
          (case time_clip (t + n * 1000) of
             None \<Rightarrow> Inl RangeError
           | Some t' \<Rightarrow> Inr (toISOString rt t')))"

text \<open>
  Lines 38-56: the POST of the three credential fields to the token endpoint.
  \<^verbatim>\<open>URLSearchParams\<close> converts each field to a string, and throws where a field does not
  convert.
\<close>

definition postable :: "json \<Rightarrow> bool" where
  "postable creds =
     (converts (opt_prop (Some creds) ''client_id'') \<and>
      converts (opt_prop (Some creds) ''client_secret'') \<and>
      converts (opt_prop (Some creds) ''refresh_token''))"

definition token_request :: "json \<Rightarrow> request" where
  "token_request creds =
     TokenRequest (opt_prop (Some creds) ''client_id'')
                  (opt_prop (Some creds) ''client_secret'')
                  (opt_prop (Some creds) ''refresh_token'')"

definition refreshToken :: "runtime \<Rightarrow> json \<Rightarrow> world \<Rightarrow> (error + fresh_token) \<times> world" where
  "refreshToken rt creds w =
     (if \<not> postable creds then (Inl TypeError, w)
      else
        (case httpsRequest (token_request creds) w of
           (Inl e, w') \<Rightarrow> (Inl e, w')
         | (Inr res, w') \<Rightarrow>
             if status res \<noteq> 200
             then
               (case to_str rt (refresh_detail rt (body res)) of
                  Inl e \<Rightarrow> (Inl e, w')
                | Inr detail \<Rightarrow> (Inl (Error (''Token refresh failed: '' @ detail)), w'))
             else
               (case JSON_parse rt (body res) of
                  None \<Rightarrow> (Inl SyntaxError, w')
                | Some data \<Rightarrow>
                    (case get_prop data ''access_token'' of
                       Inl e \<Rightarrow> (Inl e, w')
                     | Inr tok \<Rightarrow>
                         (case new_expiry rt (now w') (opt_prop (Some data) ''expires_in'') of
                            Inl e \<Rightarrow> (Inl e, w')
                          | Inr ex \<Rightarrow> (Inr \<lparr>access_token = tok, token_expiry = ex\<rparr>, w'))))))"

text \<open>
  The test of lines 84-86: both fields truthy and the expiry beyond the buffer. The expiry
  is only read when both fields are truthy; a comparison with NaN is false.
\<close>

definition still_valid :: "runtime \<Rightarrow> json \<Rightarrow> int \<Rightarrow> error + bool" where
  "still_valid rt creds t =
     (if truthy (opt_prop (Some creds) ''access_token'') \<and>
         truthy (opt_prop (Some creds) ''token_expiry'')
      then
        (case date_getTime rt (opt_prop (Some creds) ''token_expiry'') of
           Inl e \<Rightarrow> Inl e
         | Inr None \<Rightarrow> Inr False
         | Inr (Some expiry) \<Rightarrow> Inr (t < expiry - EXPIRY_BUFFER_MS))
      else Inr False)"

text \<open>\<^verbatim>\<open>{ ...creds, ...fresh }\<close>\<close>

definition merged :: "json \<Rightarrow> fresh_token \<Rightarrow> (string \<times> jsval) list" where
  "merged creds fresh =
     obj_set (obj_set (own_entries creds) ''access_token'' (access_token fresh))
             ''token_expiry'' (Some (JStr (token_expiry fresh)))"

text \<open>\<^verbatim>\<open>JSON.stringify(updated, null, 2)\<close>: the text written back to the file.\<close>

definition persisted :: "runtime \<Rightarrow> json \<Rightarrow> fresh_token \<Rightarrow> string" where
  "persisted rt creds fresh = JSON_stringify rt 2 (JObj (defined_entries (merged creds fresh)))"

definition getAccessToken :: "runtime \<Rightarrow> world \<Rightarrow> (error + jsval) \<times> world" where
  "getAccessToken rt w =
     (case oauth_file w of
        None \<Rightarrow> (Inl (Error (''OAuth credentials not found at '' @ OAUTH_PATH rt)), w)
      | Some f \<Rightarrow>
          if \<not> readable f then (Inl FsError, w)
          else
            (case JSON_parse rt (content f) of
               None \<Rightarrow> (Inl SyntaxError, w)
             | Some creds \<Rightarrow>
                 (case get_prop creds ''access_token'' of
                    Inl e \<Rightarrow> (Inl e, w)
                  | Inr tok \<Rightarrow>
                      (case still_valid rt creds (now w) of
                         Inl e \<Rightarrow> (Inl e, w)
                       | Inr True \<Rightarrow> (Inr tok, w)
                       | Inr False \<Rightarrow>
                           (case refreshToken rt creds w of
                              (Inl e, w') \<Rightarrow> (Inl e, w')
                            | (Inr fresh, w') \<Rightarrow>
                                if \<not> writable f then (Inl FsError, w')
                                else
                                  (Inr (access_token fresh),
                                   w'\<lparr>oauth_file :=
                                        Some (File (readable f) (writable f)
                                                (persisted rt creds fresh)),
                                      trace := trace w' @ [Wrote (persisted rt creds fresh)]\<rparr>))))))"

section \<open>Creating the calendar event\<close>

text \<open>
  Modelled from the spec: the \<^verbatim>\<open>EventProposal\<close> type declaration (\<^verbatim>\<open>types.ts\<close>) is not
  among the sources. The record has the attributes of the specification's data model
  under the names the code reads them by; \<open>proposal_status\<close> is the lifecycle status.
\<close>

datatype status = Pending | Approved | Rejected | Expired

record EventProposal =
  id :: string
  title :: string
  start_time :: string
  end_time :: string
  attendees :: "string list"
  description :: string
  location :: string
  chat_jid :: string
  created_at :: string
  proposal_status :: status

text \<open>
  Lines 106-116: the \<^verbatim>\<open>event\<close> object. \<^verbatim>\<open>s || undefined\<close> is \<^verbatim>\<open>undefined\<close> for the empty
  string.
\<close>

definition event_payload :: "runtime \<Rightarrow> EventProposal \<Rightarrow> (string \<times> jsval) list" where
  "event_payload rt proposal =
     (let event =
        [(''summary'', Some (JStr (title proposal))),
         (''description'', js_or (Some (JStr (description proposal))) None),
         (''location'', js_or (Some (JStr (location proposal))) None),
         (''start'', Some (JObj [(''dateTime'', JStr (start_time proposal)),
                                 (''timeZone'', JStr (TIMEZONE rt))])),
         (''end'', Some (JObj [(''dateTime'', JStr (end_time proposal)),
                               (''timeZone'', JStr (TIMEZONE rt))]))]
      in if length (attendees proposal) > 0
         then obj_set event ''attendees''
                (Some (JArr (map (\<lambda>email. JObj [(''email'', JStr email)]) (attendees proposal))))
         else event)"

text \<open>
  The POST of the serialised event with the token as bearer, for a token that converts to
  a string.
\<close>

definition events_request :: "runtime \<Rightarrow> jsval \<Rightarrow> EventProposal \<Rightarrow> request" where
  "events_request rt token proposal =
     EventsInsert (''Bearer '' @ template rt token)
                  (JSON_stringify rt 0 (JObj (defined_entries (event_payload rt proposal))))"

definition parseApiError :: "runtime \<Rightarrow> string \<Rightarrow> jsval" where
  "parseApiError rt b =
     (case JSON_parse rt b of
        None \<Rightarrow> Some (JStr b)
      | Some parsed \<Rightarrow>
          (case get_prop parsed ''error'' of
             Inl e \<Rightarrow> Some (JStr b)
           | Inr err \<Rightarrow>
               js_or (js_or (opt_prop err ''message'') (opt_prop (Some parsed) ''error_description''))
                     (Some (JStr b))))"

record created_event =
  eventId :: jsval
  htmlLink :: jsval

text \<open>
  What lines 153-154 and 162-163 throw: the error with the status and the detail, or the
  TypeError of a detail that does not convert to a string.
\<close>

definition api_error :: "runtime \<Rightarrow> response \<Rightarrow> error" where
  "api_error rt res =
     (case to_str rt (parseApiError rt (body res)) of
        Inl e \<Rightarrow> e
      | Inr detail \<Rightarrow>
          Error (''Calendar API error '' @ number_str rt (status res) @ '': '' @ detail))"

text \<open>The last two lines of each branch: the identifier and link of the created event.\<close>

definition event_result :: "runtime \<Rightarrow> response \<Rightarrow> error + created_event" where
  "event_result rt res =
     (case JSON_parse rt (body res) of
        None \<Rightarrow> Inl SyntaxError
      | Some data \<Rightarrow>
          (case get_prop data ''id'' of
             Inl e \<Rightarrow> Inl e
           | Inr i \<Rightarrow> Inr \<lparr>eventId = i, htmlLink = opt_prop (Some data) ''htmlLink''\<rparr>))"

definition log_warn :: "string \<Rightarrow> world \<Rightarrow> world" where
  "log_warn msg w = w\<lparr>trace := trace w @ [Warned msg]\<rparr>"

text \<open>
  The header \<^verbatim>\<open>Authorization: `Bearer ${token}`\<close> is built before the request is made, so a
  token that does not convert to a string ends the call with the TypeError.
\<close>

definition createCalendarEvent ::
  "runtime \<Rightarrow> EventProposal \<Rightarrow> world \<Rightarrow> (error + created_event) \<times> world" where
  "createCalendarEvent rt proposal w =
     (case getAccessToken rt w of
        (Inl e, w1) \<Rightarrow> (Inl e, w1)
      | (Inr token, w1) \<Rightarrow>
          if \<not> converts token then (Inl TypeError, w1)
          else
            (case httpsRequest (events_request rt token proposal) w1 of
               (Inl e, w2) \<Rightarrow> (Inl e, w2)
             | (Inr res, w2) \<Rightarrow>
                 if status res = 401
                 then
                   (case getAccessToken rt
                           (log_warn ''Calendar API returned 401, retrying with fresh token'' w2) of
                      (Inl e, w3) \<Rightarrow> (Inl e, w3)
                    | (Inr freshToken, w3) \<Rightarrow>
                        if \<not> converts freshToken then (Inl TypeError, w3)
                        else
                          (case httpsRequest (events_request rt freshToken proposal) w3 of
                             (Inl e, w4) \<Rightarrow> (Inl e, w4)
                           | (Inr retryRes, w4) \<Rightarrow>
                               if status retryRes \<noteq> 200 then (Inl (api_error rt retryRes), w4)
                               else (event_result rt retryRes, w4)))
                 else if status res \<noteq> 200 then (Inl (api_error rt res), w2)
                 else (event_result rt res, w2)))"

section \<open>The Telegram channel\<close>

text \<open>
  Text outside ASCII is written as its UTF-8 bytes. The two date formatters stand for
  \<^verbatim>\<open>new Date(s).toLocaleDateString('en-GB', ...)\<close> and
  \<^verbatim>\<open>new Date(s).toLocaleTimeString('en-GB', ...)\<close> with the options of the source.
\<close>

record formatting =
  toLocaleDateString :: "string \<Rightarrow> string"
  toLocaleTimeString :: "string \<Rightarrow> string"

text \<open>One button of the inline keyboard: \<^verbatim>\<open>.text(label, data)\<close>.\<close>

datatype button = Button (label: string) (callback_data: string)

datatype log_entry = LogWarn string | LogError string

datatype message = Message (chat: string) (text_of: string) (reply_markup: "button list")

text \<open>
  The channel object and what it can reach: whether \<^verbatim>\<open>this.bot\<close> is set, the Bot API's
  \<^verbatim>\<open>sendMessage\<close> (which throws, or returns the message with its numeric id), the
  messages delivered, the log, and the table of proposals of the database module.
\<close>

record channel =
  bot :: bool
  api_sendMessage :: "message \<Rightarrow> string + int"
  delivered :: "message list"
  logged :: "log_entry list"
  event_proposals :: "string \<rightharpoonup> EventProposal"

definition startsWith :: "string \<Rightarrow> string \<Rightarrow> bool" where
  "startsWith s p = (take (length p) s = p)"

text \<open>\<^verbatim>\<open>jid.replace(/^tg:/, '')\<close>\<close>

definition numeric_id :: "string \<Rightarrow> string" where
  "numeric_id jid = (if startsWith jid ''tg:'' then drop 3 jid else jid)"

definition calendar_emoji :: string where
  "calendar_emoji = [CHR 0xF0, CHR 0x9F, CHR 0x93, CHR 0x85]"

definition en_dash :: string where
  "en_dash = [CHR 0xE2, CHR 0x80, CHR 0x93]"

definition check_mark :: string where
  "check_mark = [CHR 0xE2, CHR 0x9C, CHR 0x85]"

definition cross_mark :: string where
  "cross_mark = [CHR 0xE2, CHR 0x9D, CHR 0x8C]"

definition newline :: string where
  "newline = [CHR 0x0A]"

text \<open>Lines 277-298: the text of the proposal message.\<close>

definition proposal_text :: "formatting \<Rightarrow> EventProposal \<Rightarrow> string" where
  "proposal_text fmt proposal =
     (let dateStr = toLocaleDateString fmt (start_time proposal);
          startStr = toLocaleTimeString fmt (start_time proposal);
          endStr = toLocaleTimeString fmt (end_time proposal);
          t0 = calendar_emoji @ '' *'' @ title proposal @ ''*'' @ newline @ dateStr @ '', '' @
               startStr @ '' '' @ en_dash @ '' '' @ endStr;
          t1 = (if length (attendees proposal) > 0
                then t0 @ newline @ ''Attendees: '' @ join '', '' (attendees proposal) else t0);
          t2 = (if location proposal \<noteq> [] then t1 @ newline @ ''Location: '' @ location proposal
                else t1)
      in if description proposal \<noteq> [] then t2 @ newline @ newline @ description proposal else t2)"

text \<open>Lines 300-302: the keyboard of the proposal message.\<close>

definition event_keyboard :: "EventProposal \<Rightarrow> button list" where
  "event_keyboard proposal =
     [Button (check_mark @ '' Create'') (''event:approve:'' @ id proposal),
      Button (cross_mark @ '' Skip'') (''event:skip:'' @ id proposal)]"

text \<open>The \<^verbatim>\<open>try\<close> block of \<^verbatim>\<open>sendEventProposal\<close>: \<open>Inl\<close> is what it throws.\<close>

definition try_send :: "formatting \<Rightarrow> string \<Rightarrow> EventProposal \<Rightarrow> channel \<Rightarrow> (error + string) \<times> channel" where
  "try_send fmt jid proposal c =
     (let msg = Message (numeric_id jid) (proposal_text fmt proposal) (event_keyboard proposal)
      in case api_sendMessage c msg of
           Inl err \<Rightarrow> (Inl (Error err), c)
         | Inr message_id \<Rightarrow> (Inr (int_str message_id), c\<lparr>delivered := delivered c @ [msg]\<rparr>))"

text \<open>The result is the message id, or \<open>None\<close> for \<^verbatim>\<open>undefined\<close>.\<close>

definition sendEventProposal ::
  "formatting \<Rightarrow> string \<Rightarrow> EventProposal \<Rightarrow> channel \<Rightarrow> (error + string option) \<times> channel" where
  "sendEventProposal fmt jid proposal c =
     (if \<not> bot c
      then (Inr None, c\<lparr>logged := logged c @ [LogWarn ''Telegram bot not initialized'']\<rparr>)
      else
        (case try_send fmt jid proposal c of
           (Inr handle, c') \<Rightarrow> (Inr (Some handle), c')
         | (Inl err, c') \<Rightarrow>
             (Inr None, c'\<lparr>logged := logged c' @ [LogError ''Failed to send event proposal'']\<rparr>)))"

text \<open>\<^verbatim>\<open>s.split(sep)\<close> for a one-character separator.\<close>

fun split_from :: "char \<Rightarrow> string \<Rightarrow> string \<Rightarrow> string list" where
  "split_from sep cur [] = [cur]"
| "split_from sep cur (x # xs) =
     (if x = sep then cur # split_from sep [] xs else split_from sep (cur @ [x]) xs)"

definition split :: "string \<Rightarrow> char \<Rightarrow> string list" where
  "split s sep = split_from sep [] s"

text \<open>An array element, \<^verbatim>\<open>undefined\<close> beyond the end.\<close>

definition element :: "'a list \<Rightarrow> nat \<Rightarrow> 'a option" where
  "element xs i = (if i < length xs then Some (xs ! i) else None)"

text \<open>
  The handler of \<^verbatim>\<open>callback_query:data\<close> (lines 121-129). The optional
  \<^verbatim>\<open>onEventCallback\<close> acts on the state of the host, of which the channel knows nothing;
  it receives the proposal id and the action.
\<close>

definition on_callback_query ::
  "(string option \<Rightarrow> string option \<Rightarrow> 's \<Rightarrow> 's) option \<Rightarrow> string \<Rightarrow> 's \<Rightarrow> 's" where
  "on_callback_query onEventCallback data s =
     (if \<not> startsWith data ''event:'' then s
      else
        (let parts = split data CHR '':'';
             action = element parts 1;
             proposalId = element parts 2
         in case onEventCallback of
              None \<Rightarrow> s
            | Some callback \<Rightarrow> callback proposalId action s))"

section \<open>The proposal store\<close>

text \<open>
  Modelled from the spec: the Proposal Store (the database module \<^verbatim>\<open>db.ts\<close>) is not among
  the sources. Following section 4.2 of the specification, \<open>transition\<close> is an atomic
  compare-and-set: it succeeds only if the stored status equals the expected one at the
  moment of the update, and signals a conflict otherwise. The optional extra attributes
  recorded with a transition take no part in the comparison and are left out.
\<close>

type_synonym store = "string \<rightharpoonup> EventProposal"

datatype cas_result = Committed | Conflict

definition transition :: "string \<Rightarrow> status \<Rightarrow> status \<Rightarrow> store \<Rightarrow> cas_result \<times> store" where
  "transition i expectedCurrentStatus newStatus s =
     (case s i of
        None \<Rightarrow> (Conflict, s)
      | Some r \<Rightarrow>
          if proposal_status r = expectedCurrentStatus
          then (Committed, s(i \<mapsto> r\<lparr>proposal_status := newStatus\<rparr>))
          else (Conflict, s))"

text \<open>
  Callers racing on one id: the store serialises their transitions in some order, which
  is the order of the list; each caller receives its own result.
\<close>

fun race :: "string \<Rightarrow> status list \<Rightarrow> store \<Rightarrow> cas_result list \<times> store" where
  "race i [] s = ([], s)"
| "race i (newStatus # rest) s =
     (case transition i Pending newStatus s of
        (r, s') \<Rightarrow> (case race i rest s' of (rs, s'') \<Rightarrow> (r # rs, s'')))"

section \<open>A sample runtime and sample worlds\<close>

text \<open>
  \<^verbatim>\<open>JSON.stringify\<close> without indentation, for documents whose strings need no escaping.
\<close>

definition quoted :: "string \<Rightarrow> string" where
  "quoted s = [CHR 0x22] @ s @ [CHR 0x22]"

fun compact :: "json \<Rightarrow> string" where
  "compact JNull = ''null''"
| "compact (JBool b) = (if b then ''true'' else ''false'')"
| "compact (JNum n) = int_str n"
| "compact (JStr s) = quoted s"
| "compact (JArr xs) = ''['' @ join '','' (map compact xs) @ '']''"
| "compact (JObj kvs) =
     ''{'' @ join '','' (map (\<lambda>kv. quoted (fst kv) @ '':'' @ compact (snd kv)) kvs) @ ''}''"

text \<open>
  A credential file with a stored access token and the given expiry, and one in which
  the access token and its expiry are missing.
\<close>

definition creds_text :: "string \<Rightarrow> string" where
  "creds_text ex =
     ''{\"client_id\":\"client-1\",\"client_secret\":\"secret-1\",\"refresh_token\":\"refresh-1\",'' @
     ''\"access_token\":\"token-0\",\"token_expiry\":\"'' @ ex @ ''\"}''"

definition creds_fields :: "string \<Rightarrow> (string \<times> json) list" where
  "creds_fields ex =
     [(''client_id'', JStr ''client-1''), (''client_secret'', JStr ''secret-1''),
      (''refresh_token'', JStr ''refresh-1''), (''access_token'', JStr ''token-0''),
      (''token_expiry'', JStr ex)]"

definition creds_doc :: "string \<Rightarrow> json" where
  "creds_doc ex = JObj (creds_fields ex)"

definition bare_creds_text :: string where
  "bare_creds_text =
     ''{\"client_id\":\"client-1\",\"client_secret\":\"secret-1\",\"refresh_token\":\"refresh-1\"}''"

definition bare_creds_fields :: "(string \<times> json) list" where
  "bare_creds_fields =
     [(''client_id'', JStr ''client-1''), (''client_secret'', JStr ''secret-1''),
      (''refresh_token'', JStr ''refresh-1'')]"

definition bare_creds_doc :: json where
  "bare_creds_doc = JObj bare_creds_fields"

definition year_2030 :: string where
  "year_2030 = ''2030-01-01T00:00:00.000Z''"

definition year_2020 :: string where
  "year_2020 = ''2020-01-01T00:00:00.000Z''"

text \<open>An expiry that is no date.\<close>

definition no_date :: string where
  "no_date = ''soon''"

text \<open>Responses of the token endpoint and of the calendar API.\<close>

definition token_granted :: response where
  "token_granted = Response 200 ''{\"access_token\":\"token-1\",\"expires_in\":3599}''"

definition token_denied :: response where
  "token_denied =
     Response 400 (''{\"error\":\"invalid_grant\",'' @
                   ''\"error_description\":\"Token has been expired or revoked.\"}'')"

text \<open>A refusal whose \<^verbatim>\<open>error\<close> is an object with a property \<^verbatim>\<open>toString\<close>.\<close>

definition token_denied_oddly :: response where
  "token_denied_oddly = Response 400 ''{\"error\":{\"toString\":1}}''"

definition unauthorized :: response where
  "unauthorized = Response 401 ''{\"error\":{\"code\":401,\"message\":\"Invalid Credentials\"}}''"

definition rate_limited :: response where
  "rate_limited = Response 403 ''{\"error\":{\"code\":403,\"message\":\"Rate Limit Exceeded\"}}''"

text \<open>A refusal whose error message is an object with a property \<^verbatim>\<open>toString\<close>.\<close>

definition rejected_oddly :: response where
  "rejected_oddly = Response 403 ''{\"error\":{\"message\":{\"toString\":1}}}''"

definition event_created :: response where
  "event_created =
     Response 200 ''{\"id\":\"evt-1\",\"htmlLink\":\"https://calendar.example/evt-1\"}''"

definition sample_documents :: "(string \<times> json) list" where
  "sample_documents =
     [(creds_text year_2030, creds_doc year_2030),
      (creds_text year_2020, creds_doc year_2020),
      (creds_text no_date, creds_doc no_date),
      (bare_creds_text, bare_creds_doc),
      (body token_granted, JObj [(''access_token'', JStr ''token-1''), (''expires_in'', JNum 3599)]),
      (body token_denied,
         JObj [(''error'', JStr ''invalid_grant''),
               (''error_description'', JStr ''Token has been expired or revoked.'')]),
      (body token_denied_oddly, JObj [(''error'', JObj [(''toString'', JNum 1)])]),
      (body rejected_oddly, JObj [(''error'', JObj [(''message'', JObj [(''toString'', JNum 1)])])]),
      (body unauthorized,
         JObj [(''error'', JObj [(''code'', JNum 401), (''message'', JStr ''Invalid Credentials'')])]),
      (body rate_limited,
         JObj [(''error'', JObj [(''code'', JNum 403), (''message'', JStr ''Rate Limit Exceeded'')])]),
      (body event_created,
         JObj [(''id'', JStr ''evt-1''), (''htmlLink'', JStr ''https://calendar.example/evt-1'')])]"

text \<open>
  The sample runtime knows the documents and dates above; it serialises compactly
  whatever the indentation.
\<close>

definition sample_runtime :: runtime where
  "sample_runtime =
     \<lparr>JSON_parse = map_of sample_documents,
      JSON_stringify = (\<lambda>indent. compact),
      Number_of_string = (\<lambda>s. None),
      Date_parse = map_of [(year_2030, 1893456000000), (year_2020, 1577836800000)],
      toISOString = (\<lambda>t. if t = 1800003599120 then ''2027-01-15T08:59:59.120Z'' else []),
      Number_toString = (\<lambda>n. if n = 1000000000000000000000 then ''1e+21'' else []),
      OAUTH_PATH = ''/home/user/.google-oauth/oauth.json'',
      TIMEZONE = ''Europe/Warsaw''\<rparr>"

text \<open>A network that answers every token request and every create call the same way.\<close>

definition sample_network :: "response \<Rightarrow> response \<Rightarrow> effect list \<Rightarrow> reply" where
  "sample_network token_response events_response tr =
     (case last tr of
        Sent (TokenRequest a b c) \<Rightarrow> Reply 120 (Inr token_response)
      | Sent (EventsInsert a b) \<Rightarrow> Reply 80 (Inr events_response)
      | Wrote t \<Rightarrow> Reply 0 (Inl ''no request'')
      | Warned t \<Rightarrow> Reply 0 (Inl ''no request''))"



text \<open>The clock reads 2027-01-15T08:00:00Z.\<close>

definition sample_world :: "disk_file option \<Rightarrow> response \<Rightarrow> response \<Rightarrow> world" where
  "sample_world f token_response events_response =
     \<lparr>oauth_file = f, now = 1800000000000,
      network = sample_network token_response events_response, trace = []\<rparr>"


definition coffee :: EventProposal where
  "coffee =
     \<lparr>id = ''prop-1'', title = ''Coffee with Alice'', start_time = ''2027-01-16T14:00:00'',
      end_time = ''2027-01-16T14:30:00'', attendees = [''alice@example.com''],
      description = [], location = [], chat_jid = ''tg:42'',
      created_at = ''2027-01-15T07:59:00.000Z'', proposal_status = Pending\<rparr>"

text \<open>A channel whose chat knows the sample proposal, and two behaviours of the Bot API.\<close>

definition sample_formatting :: formatting where
  "sample_formatting =
     \<lparr>toLocaleDateString = (\<lambda>s. ''Sat, 16 Jan''),
      toLocaleTimeString = (\<lambda>s. if s = ''2027-01-16T14:00:00'' then ''14:00'' else ''14:30'')\<rparr>"

definition api_delivers :: "message \<Rightarrow> string + int" where
  "api_delivers m = Inr 4711"

definition api_fails :: "message \<Rightarrow> string + int" where
  "api_fails m = Inl ''Bad Gateway''"

definition sample_channel :: "bool \<Rightarrow> (message \<Rightarrow> string + int) \<Rightarrow> channel" where
  "sample_channel connected api =
     \<lparr>bot = connected, api_sendMessage = api, delivered = [], logged = [],
      event_proposals = [''prop-1'' \<mapsto> coffee]\<rparr>"

text \<open>A host callback that records each call it receives.\<close>

definition record_call ::
  "string option \<Rightarrow> string option \<Rightarrow> (string option \<times> string option) list \<Rightarrow>
   (string option \<times> string option) list" where
  "record_call proposalId action calls = calls @ [(proposalId, action)]"

section \<open>Properties of the credential manager\<close>

lemma get_prop_opt_prop: "creds \<noteq> JNull \<Longrightarrow> get_prop creds k = Inr (opt_prop (Some creds) k)"
  by (cases creds) simp_all

lemma still_valid_not_null: "still_valid rt creds t \<noteq> Inr False \<Longrightarrow> creds \<noteq> JNull"
  by (auto simp: still_valid_def)

lemma httpsRequest_effect:
  assumes "httpsRequest req w = (r, w')"
  shows "trace w' = trace w @ [Sent req] \<and> oauth_file w' = oauth_file w \<and> network w' = network w
         \<and> now w' = now w + elapsed (network w (trace w @ [Sent req]))
         \<and> r = (case outcome (network w (trace w @ [Sent req])) of
                  Inl e \<Rightarrow> Inl (RequestError e) | Inr res \<Rightarrow> Inr res)"
  using assms by (auto simp: httpsRequest_def Let_def split: sum.splits)

lemma refreshToken_not_postable:
  "\<not> postable creds \<Longrightarrow> refreshToken rt creds w = (Inl TypeError, w)"
  by (simp add: refreshToken_def)

lemma refreshToken_effect:
  assumes "refreshToken rt creds w = (r, w')" and "postable creds"
  shows "trace w' = trace w @ [Sent (token_request creds)] \<and> oauth_file w' = oauth_file w
         \<and> network w' = network w
         \<and> now w' = now w + elapsed (network w (trace w @ [Sent (token_request creds)]))"
proof -
  obtain r0 w0 where h: "httpsRequest (token_request creds) w = (r0, w0)"
    by (cases "httpsRequest (token_request creds) w") auto
  from httpsRequest_effect [OF h]
  have e: "trace w0 = trace w @ [Sent (token_request creds)]" "oauth_file w0 = oauth_file w"
    "network w0 = network w"
    "now w0 = now w + elapsed (network w (trace w @ [Sent (token_request creds)]))" by simp_all
  from assms h have "w' = w0"
    by (auto simp: refreshToken_def split: sum.splits if_splits option.splits)
  with e show ?thesis by simp
qed

lemma refreshToken_keeps:
  assumes "refreshToken rt creds w = (r, w')"
  shows "oauth_file w' = oauth_file w \<and> network w' = network w \<and>
         (trace w' = trace w \<or> trace w' = trace w @ [Sent (token_request creds)])"
proof (cases "postable creds")
  case True
  from refreshToken_effect [OF assms True] show ?thesis by simp
next
  case False
  from refreshToken_not_postable [OF False, of rt w] assms show ?thesis by simp
qed

lemma refreshToken_success:
  assumes "refreshToken rt creds w = (Inr fresh, w')"
  shows "\<exists>res data. postable creds
           \<and> outcome (network w (trace w @ [Sent (token_request creds)])) = Inr res
           \<and> status res = 200 \<and> JSON_parse rt (body res) = Some data
           \<and> access_token fresh = opt_prop (Some data) ''access_token''
           \<and> new_expiry rt (now w') (opt_prop (Some data) ''expires_in'') = Inr (token_expiry fresh)"
proof -
  have post: "postable creds"
    using assms refreshToken_not_postable [of creds rt w] by auto
  obtain r0 w0 where h: "httpsRequest (token_request creds) w = (r0, w0)"
    by (cases "httpsRequest (token_request creds) w") auto
  note e = httpsRequest_effect [OF h]
  from assms h post obtain res where r0: "r0 = Inr res" and w0: "w' = w0"
    by (auto simp: refreshToken_def split: sum.splits if_splits option.splits)
  from assms h r0 post have st: "status res = 200"
    by (auto simp: refreshToken_def split: if_splits sum.splits)
  from assms h r0 st post obtain data where d: "JSON_parse rt (body res) = Some data"
    by (auto simp: refreshToken_def split: option.splits)
  from assms h r0 st d post have dn: "data \<noteq> JNull"
    by (auto simp: refreshToken_def split: sum.splits)
  from assms h r0 st d dn post have
    "access_token fresh = opt_prop (Some data) ''access_token''"
    "new_expiry rt (now w0) (opt_prop (Some data) ''expires_in'') = Inr (token_expiry fresh)"
    by (auto simp: refreshToken_def get_prop_opt_prop split: sum.splits)
  moreover from e r0 have "outcome (network w (trace w @ [Sent (token_request creds)])) = Inr res"
    by (auto split: sum.splits)
  ultimately show ?thesis using st d w0 post by blast
qed

lemma refreshToken_rejected:
  assumes "postable creds"
      and "outcome (network w (trace w @ [Sent (token_request creds)])) = Inr res"
      and "status res \<noteq> 200"
  shows "fst (refreshToken rt creds w) =
           (case to_str rt (refresh_detail rt (body res)) of
              Inl e \<Rightarrow> Inl e
            | Inr detail \<Rightarrow> Inl (Error (''Token refresh failed: '' @ detail)))"
  using assms
  by (simp add: refreshToken_def httpsRequest_def Let_def split: sum.splits)

lemma getAccessToken_refresh_path:
  assumes "oauth_file w = Some f" "readable f" "JSON_parse rt (content f) = Some creds"
      and "creds \<noteq> JNull" "still_valid rt creds (now w) = Inr False"
  shows "getAccessToken rt w =
           (case refreshToken rt creds w of
              (Inl e, w') \<Rightarrow> (Inl e, w')
            | (Inr fresh, w') \<Rightarrow>
                if \<not> writable f then (Inl FsError, w')
                else (Inr (access_token fresh),
                      w'\<lparr>oauth_file := Some (File (readable f) (writable f) (persisted rt creds fresh)),
                         trace := trace w' @ [Wrote (persisted rt creds fresh)]\<rparr>))"
  using assms
  by (cases "refreshToken rt creds w")
     (auto simp: getAccessToken_def get_prop_opt_prop split: sum.splits)

lemma getAccessToken_valid_path:
  assumes "oauth_file w = Some f" "readable f" "JSON_parse rt (content f) = Some creds"
      and "still_valid rt creds (now w) = Inr True"
  shows "getAccessToken rt w = (Inr (opt_prop (Some creds) ''access_token''), w)"
proof -
  from assms(4) have "creds \<noteq> JNull" by (intro still_valid_not_null [of rt creds "now w"]) simp
  with assms show ?thesis by (simp add: getAccessToken_def get_prop_opt_prop)
qed

lemma getAccessToken_throwing_path:
  assumes "oauth_file w = Some f" "readable f" "JSON_parse rt (content f) = Some creds"
      and "still_valid rt creds (now w) = Inl e"
  shows "getAccessToken rt w = (Inl e, w)"
proof -
  from assms(4) have "creds \<noteq> JNull" by (intro still_valid_not_null [of rt creds "now w"]) simp
  with assms show ?thesis by (simp add: getAccessToken_def get_prop_opt_prop)
qed

lemmas sample_defs = sample_runtime_def sample_world_def sample_network_def sample_documents_def
  creds_text_def creds_doc_def creds_fields_def bare_creds_text_def bare_creds_doc_def
  bare_creds_fields_def year_2030_def year_2020_def no_date_def
  token_granted_def token_denied_def token_denied_oddly_def unauthorized_def rate_limited_def
  rejected_oddly_def event_created_def

lemmas run_defs = getAccessToken_def refreshToken_def httpsRequest_def token_request_def
  postable_def converts_def to_str_def template_def
  still_valid_def EXPIRY_BUFFER_MS_def new_expiry_def time_clip_def Let_def

lemma refresh_detail_cases:
  "(JSON_parse rt b = None \<longrightarrow> refresh_detail rt b = Some (JStr b)) \<and>
   (JSON_parse rt b = Some (JObj kvs) \<longrightarrow>
      refresh_detail rt b =
        (if truthy (map_of kvs ''error_description'') then map_of kvs ''error_description''
         else if truthy (map_of kvs ''error'') then map_of kvs ''error''
         else Some (JStr b)))"
  by (simp add: refresh_detail_def js_or_def)

text \<open>
  Claim C7, as stated, fails: a refresh refused with a body whose \<^verbatim>\<open>error\<close> is an object
  with a property \<^verbatim>\<open>toString\<close> of its own ends in the TypeError of the template literal of
  line 66, not in the error that carries the provider's detail.
\<close>

theorem refresh_failure_detail_counterexample:
  "fst (getAccessToken sample_runtime
          (sample_world (Some (File True True (creds_text year_2020))) token_denied_oddly
             event_created)) = Inl TypeError"
  by (simp add: sample_defs run_defs refresh_detail_def js_or_def)

text \<open>
  Claim C7, amended. \<open>getAccessToken\<close> fails with the error
  \<^verbatim>\<open>OAuth credentials not found at ...\<close> when the credential file is absent. Whenever the
  refresh call is answered with a status other than 200, the provider's detail is the
  \<^verbatim>\<open>error_description\<close> field of the response body if it is set, else its \<^verbatim>\<open>error\<close> field,
  else the raw body (also when the body is not JSON); \<open>getAccessToken\<close> then fails with the
  error \<^verbatim>\<open>Token refresh failed: ...\<close> carrying that detail as a string, and with a TypeError
  when the detail does not convert to a string.
\<close>

theorem getAccessToken_failures:
  "(oauth_file w = None \<longrightarrow>
      getAccessToken rt w = (Inl (Error (''OAuth credentials not found at '' @ OAUTH_PATH rt)), w)) \<and>
   (oauth_file w = Some f \<and> readable f \<and> JSON_parse rt (content f) = Some creds \<and>
    creds \<noteq> JNull \<and> still_valid rt creds (now w) = Inr False \<and> postable creds \<and>
    outcome (network w (trace w @ [Sent (token_request creds)])) = Inr res \<and> status res \<noteq> 200 \<longrightarrow>
      (converts (refresh_detail rt (body res)) \<longrightarrow>
         fst (getAccessToken rt w) =
           Inl (Error (''Token refresh failed: '' @ template rt (refresh_detail rt (body res))))) \<and>
      (\<forall>s. refresh_detail rt (body res) = Some (JStr s) \<longrightarrow>
         fst (getAccessToken rt w) = Inl (Error (''Token refresh failed: '' @ s))) \<and>
      (\<not> converts (refresh_detail rt (body res)) \<longrightarrow> fst (getAccessToken rt w) = Inl TypeError) \<and>
      (JSON_parse rt (body res) = None \<longrightarrow> refresh_detail rt (body res) = Some (JStr (body res))) \<and>
      (\<forall>kvs. JSON_parse rt (body res) = Some (JObj kvs) \<longrightarrow>
         refresh_detail rt (body res) =
           (if truthy (map_of kvs ''error_description'') then map_of kvs ''error_description''
            else if truthy (map_of kvs ''error'') then map_of kvs ''error''
            else Some (JStr (body res)))))"
proof -
  have a: "getAccessToken rt w =
      (Inl (Error (''OAuth credentials not found at '' @ OAUTH_PATH rt)), w)"
    if "oauth_file w = None"
    using that by (simp add: getAccessToken_def)
  have b: "fst (getAccessToken rt w) =
             (case to_str rt (refresh_detail rt (body res)) of
                Inl e \<Rightarrow> Inl e
              | Inr detail \<Rightarrow> Inl (Error (''Token refresh failed: '' @ detail)))"
    if h: "oauth_file w = Some f \<and> readable f \<and> JSON_parse rt (content f) = Some creds \<and>
      creds \<noteq> JNull \<and> still_valid rt creds (now w) = Inr False \<and> postable creds \<and>
      outcome (network w (trace w @ [Sent (token_request creds)])) = Inr res \<and> status res \<noteq> 200"
  proof -
    from h have p: "getAccessToken rt w =
           (case refreshToken rt creds w of
              (Inl e, w') \<Rightarrow> (Inl e, w')
            | (Inr fresh, w') \<Rightarrow>
                if \<not> writable f then (Inl FsError, w')
                else (Inr (access_token fresh),
                      w'\<lparr>oauth_file := Some (File (readable f) (writable f) (persisted rt creds fresh)),
                         trace := trace w' @ [Wrote (persisted rt creds fresh)]\<rparr>))"
      by (intro getAccessToken_refresh_path) simp_all
    from h have "fst (refreshToken rt creds w) =
             (case to_str rt (refresh_detail rt (body res)) of
                Inl e \<Rightarrow> Inl e
              | Inr detail \<Rightarrow> Inl (Error (''Token refresh failed: '' @ detail)))"
      by (intro refreshToken_rejected) simp_all
    with p show ?thesis
      by (cases "refreshToken rt creds w") (auto split: sum.splits)
  qed
  have c: "fst (getAccessToken rt w) =
             Inl (Error (''Token refresh failed: '' @ template rt (refresh_detail rt (body res))))"
    if "converts (refresh_detail rt (body res))" and
      "oauth_file w = Some f \<and> readable f \<and> JSON_parse rt (content f) = Some creds \<and>
      creds \<noteq> JNull \<and> still_valid rt creds (now w) = Inr False \<and> postable creds \<and>
      outcome (network w (trace w @ [Sent (token_request creds)])) = Inr res \<and> status res \<noteq> 200"
    using b [OF that(2)] that(1) by (simp add: to_str_def)
  have d: "fst (getAccessToken rt w) = Inl (Error (''Token refresh failed: '' @ s))"
    if "refresh_detail rt (body res) = Some (JStr s)" and
      "oauth_file w = Some f \<and> readable f \<and> JSON_parse rt (content f) = Some creds \<and>
      creds \<noteq> JNull \<and> still_valid rt creds (now w) = Inr False \<and> postable creds \<and>
      outcome (network w (trace w @ [Sent (token_request creds)])) = Inr res \<and> status res \<noteq> 200"
    for s
    using b [OF that(2)] that(1) by (simp add: to_str_def converts_def template_def)
  have e: "fst (getAccessToken rt w) = Inl TypeError"
    if "\<not> converts (refresh_detail rt (body res))" and
      "oauth_file w = Some f \<and> readable f \<and> JSON_parse rt (content f) = Some creds \<and>
      creds \<noteq> JNull \<and> still_valid rt creds (now w) = Inr False \<and> postable creds \<and>
      outcome (network w (trace w @ [Sent (token_request creds)])) = Inr res \<and> status res \<noteq> 200"
    using b [OF that(2)] that(1) by (simp add: to_str_def)
  from a c d e refresh_detail_cases [of rt "body res"] show ?thesis by blast
qed

theorem getAccessToken_failures_witness:
  "getAccessToken sample_runtime (sample_world None token_granted event_created) =
     (Inl (Error ''OAuth credentials not found at /home/user/.google-oauth/oauth.json''),
      sample_world None token_granted event_created) \<and>
   fst (getAccessToken sample_runtime
          (sample_world (Some (File True True (creds_text year_2020))) token_denied event_created)) =
     Inl (Error ''Token refresh failed: Token has been expired or revoked.'')"
proof -
  let ?w = "sample_world (Some (File True True (creds_text year_2020))) token_denied event_created"
  have a: "oauth_file (sample_world None token_granted event_created) = None"
    by (simp add: sample_world_def)
  have b: "oauth_file ?w = Some (File True True (creds_text year_2020)) \<and>
     readable (File True True (creds_text year_2020)) \<and>
     JSON_parse sample_runtime (content (File True True (creds_text year_2020))) = Some (creds_doc year_2020) \<and>
     creds_doc year_2020 \<noteq> JNull \<and>
     still_valid sample_runtime (creds_doc year_2020) (now ?w) = Inr False \<and>
     postable (creds_doc year_2020) \<and>
     outcome (network ?w (trace ?w @ [Sent (token_request (creds_doc year_2020))])) = Inr token_denied \<and>
     status token_denied \<noteq> 200"
    by (simp add: sample_defs still_valid_def EXPIRY_BUFFER_MS_def token_request_def postable_def
          converts_def)
  have c: "refresh_detail sample_runtime (body token_denied) =
             Some (JStr ''Token has been expired or revoked.'')"
    by (simp add: sample_defs refresh_detail_def js_or_def)
  from getAccessToken_failures [where w = "sample_world None token_granted event_created" and rt = sample_runtime] a
    getAccessToken_failures [where w = ?w and rt = sample_runtime and f = "File True True (creds_text year_2020)"
       and creds = "creds_doc year_2020" and res = token_denied] b c
  show ?thesis by (simp add: sample_runtime_def)
qed

lemma getAccessToken_refresh_ok:
  assumes "oauth_file w = Some f" "readable f" "JSON_parse rt (content f) = Some creds"
      and "creds \<noteq> JNull" "still_valid rt creds (now w) = Inr False"
      and run: "getAccessToken rt w = (Inr new, w')"
  shows "\<exists>fresh res data.
           postable creds \<and>
           outcome (network w (trace w @ [Sent (token_request creds)])) = Inr res \<and>
           status res = 200 \<and> JSON_parse rt (body res) = Some data \<and>
           new = opt_prop (Some data) ''access_token'' \<and> access_token fresh = new \<and>
           new_expiry rt (now w') (opt_prop (Some data) ''expires_in'') = Inr (token_expiry fresh) \<and>
           writable f \<and>
           now w' = now w + elapsed (network w (trace w @ [Sent (token_request creds)])) \<and>
           trace w' = trace w @ [Sent (token_request creds), Wrote (persisted rt creds fresh)] \<and>
           oauth_file w' = Some (File True True (persisted rt creds fresh))"
proof -
  note p = getAccessToken_refresh_path [OF assms(1-5)]
  obtain r0 w0 where r: "refreshToken rt creds w = (r0, w0)"
    by (cases "refreshToken rt creds w") auto
  from p r run obtain fresh where f: "r0 = Inr fresh" "writable f" "new = access_token fresh"
    and w': "w' = w0\<lparr>oauth_file := Some (File (readable f) (writable f) (persisted rt creds fresh)),
                     trace := trace w0 @ [Wrote (persisted rt creds fresh)]\<rparr>"
    by (auto split: sum.splits if_splits)
  from r f have r': "refreshToken rt creds w = (Inr fresh, w0)" by simp
  from refreshToken_success [OF r'] obtain res data where
    s: "postable creds" "outcome (network w (trace w @ [Sent (token_request creds)])) = Inr res"
       "status res = 200" "JSON_parse rt (body res) = Some data"
       "access_token fresh = opt_prop (Some data) ''access_token''"
       "new_expiry rt (now w0) (opt_prop (Some data) ''expires_in'') = Inr (token_expiry fresh)"
    by blast
  from refreshToken_effect [OF r' s(1)] have t: "trace w0 = trace w @ [Sent (token_request creds)]"
    and n: "now w0 = now w + elapsed (network w (trace w @ [Sent (token_request creds)]))"
    by simp_all
  from w' t f assms(2) have
    "trace w' = trace w @ [Sent (token_request creds), Wrote (persisted rt creds fresh)]"
    "oauth_file w' = Some (File True True (persisted rt creds fresh))"
    "now w' = now w0"
    by simp_all
  with s f n show ?thesis by (metis (no_types))
qed

lemma getAccessToken_refresh_sends:
  assumes "oauth_file w = Some f" "readable f" "JSON_parse rt (content f) = Some creds"
      and "creds \<noteq> JNull" "still_valid rt creds (now w) = Inr False" "postable creds"
      and run: "getAccessToken rt w = (r, w')"
  shows "\<exists>rest. trace w' = trace w @ Sent (token_request creds) # rest"
proof -
  note p = getAccessToken_refresh_path [OF assms(1-5)]
  obtain r0 w0 where r: "refreshToken rt creds w = (r0, w0)"
    by (cases "refreshToken rt creds w") auto
  from refreshToken_effect [OF r assms(6)] have t: "trace w0 = trace w @ [Sent (token_request creds)]"
    by simp
  from p r run t show ?thesis
    by (auto split: sum.splits if_splits)
qed

lemma getAccessToken_error_keeps_file:
  assumes run: "getAccessToken rt w = (Inl e, w')"
  shows "oauth_file w' = oauth_file w"
proof (cases "oauth_file w")
  case None
  with run show ?thesis by (simp add: getAccessToken_def)
next
  case (Some f)
  show ?thesis
  proof (cases "readable f")
    case False
    with Some run show ?thesis by (simp add: getAccessToken_def)
  next
    case True
    show ?thesis
    proof (cases "JSON_parse rt (content f)")
      case None
      with Some True run show ?thesis by (simp add: getAccessToken_def)
    next
      case (Some creds)
      note c = Some
      show ?thesis
      proof (cases "creds = JNull \<or> still_valid rt creds (now w) \<noteq> Inr False")
        case True
        with \<open>oauth_file w = Some f\<close> \<open>readable f\<close> c run show ?thesis
          by (cases creds) (auto simp: getAccessToken_def split: if_splits sum.splits bool.splits)
      next
        case False
        then have n: "creds \<noteq> JNull" "still_valid rt creds (now w) = Inr False" by simp_all
        note p = getAccessToken_refresh_path [OF \<open>oauth_file w = Some f\<close> \<open>readable f\<close> c n]
        obtain r0 w0 where r: "refreshToken rt creds w = (r0, w0)"
          by (cases "refreshToken rt creds w") auto
        from refreshToken_keeps [OF r] have "oauth_file w0 = oauth_file w" by simp
        with p r run show ?thesis by (auto split: sum.splits if_splits)
      qed
    qed
  qed
qed

lemma map_of_obj_set: "map_of (obj_set xs k v) k' = (if k' = k then Some v else map_of xs k')"
  by (induction xs) auto

lemma fst_set_obj_set: "fst ` set (obj_set xs k v) = insert k (fst ` set xs)"
  unfolding dom_map_of_conv_image_fst [symmetric]
  by (auto simp: map_of_obj_set split: if_splits)

lemma distinct_obj_set: "distinct (map fst xs) \<Longrightarrow> distinct (map fst (obj_set xs k v))"
  by (induction xs) (auto simp: fst_set_obj_set)

lemma map_of_defined_entries:
  "distinct (map fst xs) \<Longrightarrow>
   map_of (defined_entries xs) k = (case map_of xs k of None \<Rightarrow> None | Some v \<Rightarrow> v)"
proof (induction xs rule: defined_entries.induct)
  case 1
  then show ?case by simp
next
  case (2 k' kvs)
  then show ?case by (auto simp: map_of_eq_None_iff image_iff split: option.splits)
next
  case (3 k' v kvs)
  then show ?case by auto
qed

lemma map_of_own_entries:
  "map_of (map (\<lambda>(k, v). (k, Some v)) kvs) k = map_option Some (map_of kvs k)"
  by (induction kvs) auto

lemma fst_own_entries: "map fst (own_entries (JObj kvs)) = map fst kvs"
  by (induction kvs) auto

lemma merged_lookup:
  assumes "distinct (map fst kvs)"
  shows "map_of (defined_entries (merged (JObj kvs) fresh)) k =
           (if k = ''token_expiry'' then Some (JStr (token_expiry fresh))
            else if k = ''access_token'' then access_token fresh
            else map_of kvs k)"
proof -
  have "distinct (map fst (own_entries (JObj kvs)))"
    using assms by (simp only: fst_own_entries)
  then have "distinct (map fst (merged (JObj kvs) fresh))"
    unfolding merged_def by (intro distinct_obj_set)
  then show ?thesis
    by (simp add: map_of_defined_entries) (auto simp: merged_def map_of_obj_set map_of_own_entries split: option.splits)
qed


lemma still_valid_stored:
  assumes "map_of kvs ''access_token'' = Some (JStr tok)" "tok \<noteq> []"
      and "map_of kvs ''token_expiry'' = Some (JStr ex)" "ex \<noteq> []"
  shows "still_valid rt (JObj kvs) t =
           Inr (\<exists>expiry. Date_parse rt ex = Some expiry \<and> t + 5 * 60 * 1000 < expiry)"
  using assms by (auto simp: still_valid_def EXPIRY_BUFFER_MS_def split: option.splits)

lemma not_valid_without_fields:
  assumes "\<not> truthy (map_of kvs ''access_token'') \<or> \<not> truthy (map_of kvs ''token_expiry'')"
  shows "still_valid rt (JObj kvs) t = Inr False"
  using assms by (auto simp: still_valid_def)

lemma new_expiry_of_seconds:
  assumes "new_expiry rt t (Some (JNum n)) = Inr ex" and "\<bar>t + n * 1000\<bar> \<le> 8640000000000000"
  shows "ex = toISOString rt (t + n * 1000)"
  using assms by (simp add: new_expiry_def time_clip_def)

lemma refresh_persists:
  assumes "oauth_file w = Some f" "readable f" "JSON_parse rt (content f) = Some (JObj kvs)"
      and "distinct (map fst kvs)" "still_valid rt (JObj kvs) (now w) = Inr False"
      and run: "getAccessToken rt w = (Inr new, w')"
  shows "\<exists>rec ex' res data.
           outcome (network w (trace w @ [Sent (token_request (JObj kvs))])) = Inr res \<and>
           status res = 200 \<and> JSON_parse rt (body res) = Some data \<and>
           new = opt_prop (Some data) ''access_token'' \<and>
           (\<forall>n. opt_prop (Some data) ''expires_in'' = Some (JNum n) \<and>
                \<bar>now w' + n * 1000\<bar> \<le> 8640000000000000 \<longrightarrow>
                ex' = toISOString rt (now w' + n * 1000)) \<and>
           now w' = now w + elapsed (network w (trace w @ [Sent (token_request (JObj kvs))])) \<and>
           trace w' = trace w @ [Sent (token_request (JObj kvs)),
                                 Wrote (JSON_stringify rt 2 (JObj rec))] \<and>
           oauth_file w' = Some (File True True (JSON_stringify rt 2 (JObj rec))) \<and>
           map_of rec ''access_token'' = new \<and>
           map_of rec ''token_expiry'' = Some (JStr ex') \<and>
           (\<forall>k. k \<noteq> ''access_token'' \<and> k \<noteq> ''token_expiry'' \<longrightarrow> map_of rec k = map_of kvs k)"
proof -
  from getAccessToken_refresh_ok [OF assms(1-3) _ assms(5) run] obtain fresh res data where
    f: "outcome (network w (trace w @ [Sent (token_request (JObj kvs))])) = Inr res"
       "status res = 200" "JSON_parse rt (body res) = Some data"
       "new = opt_prop (Some data) ''access_token''" "access_token fresh = new"
       "new_expiry rt (now w') (opt_prop (Some data) ''expires_in'') = Inr (token_expiry fresh)"
       "now w' = now w + elapsed (network w (trace w @ [Sent (token_request (JObj kvs))]))"
       "trace w' = trace w @ [Sent (token_request (JObj kvs)), Wrote (persisted rt (JObj kvs) fresh)]"
       "oauth_file w' = Some (File True True (persisted rt (JObj kvs) fresh))"
    by auto
  let ?rec = "defined_entries (merged (JObj kvs) fresh)"
  note l = merged_lookup [OF assms(4), of fresh]
  have "\<forall>n. opt_prop (Some data) ''expires_in'' = Some (JNum n) \<and>
            \<bar>now w' + n * 1000\<bar> \<le> 8640000000000000 \<longrightarrow>
            token_expiry fresh = toISOString rt (now w' + n * 1000)"
    using f(6) new_expiry_of_seconds by auto
  moreover have "trace w' = trace w @ [Sent (token_request (JObj kvs)),
                                     Wrote (JSON_stringify rt 2 (JObj ?rec))]"
      "oauth_file w' = Some (File True True (JSON_stringify rt 2 (JObj ?rec)))"
    using f by (simp_all add: persisted_def)
  moreover have "map_of ?rec ''access_token'' = new"
      "map_of ?rec ''token_expiry'' = Some (JStr (token_expiry fresh))"
      "\<forall>k. k \<noteq> ''access_token'' \<and> k \<noteq> ''token_expiry'' \<longrightarrow> map_of ?rec k = map_of kvs k"
    using f(5) by (simp_all add: l)
  ultimately show ?thesis using f(1-4,7) by blast
qed

lemma sample_stale_run:
  "fst (getAccessToken sample_runtime
          (sample_world (Some (File True True (creds_text year_2020))) token_granted evr)) =
     Inr (Some (JStr ''token-1''))"
  by (simp add: sample_defs run_defs)

lemma sample_bare_run:
  "fst (getAccessToken sample_runtime
          (sample_world (Some (File True True bare_creds_text)) token_granted evr)) =
     Inr (Some (JStr ''token-1''))"
  by (simp add: sample_defs run_defs)

lemma sample_stale_trace:
  "trace (snd (getAccessToken sample_runtime
          (sample_world (Some (File True True (creds_text year_2020))) token_granted evr))) \<noteq> []"
  by (simp add: sample_defs run_defs)

text \<open>
  Claim C3. Take a stored credential record with an access token and an expiry, both
  non-empty strings. If the runtime reads the expiry as a time more than five minutes
  after the clock, \<open>getAccessToken\<close> returns the stored token and leaves the world as it
  was: no request is sent and nothing is written. Otherwise, also when the expiry is no
  date at all, it sends the refresh request to the token endpoint; and whenever it then
  returns a token, that token is the one of the provider's answer, and the last thing
  that happened is the write of the updated record to the file: the record with the new
  token, with the expiry computed from the lifetime of the provider's answer, and with
  every other key as before.
\<close>

theorem getAccessToken_refresh_safety:
  assumes "oauth_file w = Some f" and "readable f"
      and "JSON_parse rt (content f) = Some (JObj kvs)" and "distinct (map fst kvs)"
      and "map_of kvs ''access_token'' = Some (JStr tok)" and "tok \<noteq> []"
      and "map_of kvs ''token_expiry'' = Some (JStr ex)" and "ex \<noteq> []"
  shows "((\<exists>expiry. Date_parse rt ex = Some expiry \<and> now w + 5 * 60 * 1000 < expiry) \<longrightarrow>
            getAccessToken rt w = (Inr (Some (JStr tok)), w)) \<and>
         (\<not> (\<exists>expiry. Date_parse rt ex = Some expiry \<and> now w + 5 * 60 * 1000 < expiry) \<longrightarrow>
            (\<forall>r w'. getAccessToken rt w = (r, w') \<longrightarrow>
               (postable (JObj kvs) \<longrightarrow>
                  (\<exists>rest. trace w' = trace w @ Sent (token_request (JObj kvs)) # rest)) \<and>
               (\<forall>new. r = Inr new \<longrightarrow>
                  (\<exists>rec ex' res data.
                     outcome (network w (trace w @ [Sent (token_request (JObj kvs))])) = Inr res \<and>
                     status res = 200 \<and> JSON_parse rt (body res) = Some data \<and>
                     new = opt_prop (Some data) ''access_token'' \<and>
                     (\<forall>n. opt_prop (Some data) ''expires_in'' = Some (JNum n) \<and>
                          \<bar>now w' + n * 1000\<bar> \<le> 8640000000000000 \<longrightarrow>
                          ex' = toISOString rt (now w' + n * 1000)) \<and>
                     now w' = now w + elapsed (network w (trace w @ [Sent (token_request (JObj kvs))])) \<and>
                     trace w' = trace w @ [Sent (token_request (JObj kvs)),
                                           Wrote (JSON_stringify rt 2 (JObj rec))] \<and>
                     oauth_file w' = Some (File True True (JSON_stringify rt 2 (JObj rec))) \<and>
                     map_of rec ''access_token'' = new \<and>
                     map_of rec ''token_expiry'' = Some (JStr ex') \<and>
                     (\<forall>k. k \<noteq> ''access_token'' \<and> k \<noteq> ''token_expiry'' \<longrightarrow>
                          map_of rec k = map_of kvs k)))))"
proof (intro conjI impI allI)
  assume "\<exists>expiry. Date_parse rt ex = Some expiry \<and> now w + 5 * 60 * 1000 < expiry"
  then have "still_valid rt (JObj kvs) (now w) = Inr True"
    using still_valid_stored [OF assms(5-8)] by simp
  from getAccessToken_valid_path [OF assms(1-3) this] assms(5)
  show "getAccessToken rt w = (Inr (Some (JStr tok)), w)" by simp
next
  fix r w'
  assume "\<not> (\<exists>expiry. Date_parse rt ex = Some expiry \<and> now w + 5 * 60 * 1000 < expiry)"
    and run: "getAccessToken rt w = (r, w')" and post: "postable (JObj kvs)"
  then have nv: "still_valid rt (JObj kvs) (now w) = Inr False"
    using still_valid_stored [OF assms(5-8)] by simp
  from getAccessToken_refresh_sends [OF assms(1-3) _ nv post run]
  show "\<exists>rest. trace w' = trace w @ Sent (token_request (JObj kvs)) # rest" by simp
next
  fix r w' new
  assume "\<not> (\<exists>expiry. Date_parse rt ex = Some expiry \<and> now w + 5 * 60 * 1000 < expiry)"
    and run: "getAccessToken rt w = (r, w')" and r: "r = Inr new"
  then have nv: "still_valid rt (JObj kvs) (now w) = Inr False"
    using still_valid_stored [OF assms(5-8)] by simp
  from run r have "getAccessToken rt w = (Inr new, w')" by simp
  from refresh_persists [OF assms(1-4) nv this]
  show "\<exists>rec ex' res data.
           outcome (network w (trace w @ [Sent (token_request (JObj kvs))])) = Inr res \<and>
           status res = 200 \<and> JSON_parse rt (body res) = Some data \<and>
           new = opt_prop (Some data) ''access_token'' \<and>
           (\<forall>n. opt_prop (Some data) ''expires_in'' = Some (JNum n) \<and>
                \<bar>now w' + n * 1000\<bar> \<le> 8640000000000000 \<longrightarrow>
                ex' = toISOString rt (now w' + n * 1000)) \<and>
           now w' = now w + elapsed (network w (trace w @ [Sent (token_request (JObj kvs))])) \<and>
           trace w' = trace w @ [Sent (token_request (JObj kvs)),
                                 Wrote (JSON_stringify rt 2 (JObj rec))] \<and>
           oauth_file w' = Some (File True True (JSON_stringify rt 2 (JObj rec))) \<and>
           map_of rec ''access_token'' = new \<and>
           map_of rec ''token_expiry'' = Some (JStr ex') \<and>
           (\<forall>k. k \<noteq> ''access_token'' \<and> k \<noteq> ''token_expiry'' \<longrightarrow> map_of rec k = map_of kvs k)"
    .
qed

theorem getAccessToken_refresh_safety_witness:
  "getAccessToken sample_runtime
     (sample_world (Some (File True True (creds_text year_2030))) token_granted event_created) =
     (Inr (Some (JStr ''token-0'')),
      sample_world (Some (File True True (creds_text year_2030))) token_granted event_created) \<and>
   (\<exists>rec. oauth_file (snd (getAccessToken sample_runtime
         (sample_world (Some (File True True (creds_text year_2020))) token_granted event_created))) =
        Some (File True True (compact (JObj rec))) \<and>
      map_of rec ''access_token'' = Some (JStr ''token-1'') \<and>
      map_of rec ''token_expiry'' = Some (JStr ''2027-01-15T08:59:59.120Z'') \<and>
      map_of rec ''refresh_token'' = Some (JStr ''refresh-1'')) \<and>
   (\<exists>rest. trace (snd (getAccessToken sample_runtime
         (sample_world (Some (File True True (creds_text no_date))) token_granted event_created))) =
        Sent (token_request (creds_doc no_date)) # rest)"
proof -
  let ?v = "sample_world (Some (File True True (creds_text year_2030))) token_granted event_created"
  let ?s = "sample_world (Some (File True True (creds_text year_2020))) token_granted event_created"
  let ?n = "sample_world (Some (File True True (creds_text no_date))) token_granted event_created"
  have h: "oauth_file (sample_world (Some (File True True (creds_text ex))) token_granted event_created) =
        Some (File True True (creds_text ex))"
      "readable (File True True (creds_text ex))"
      "distinct (map fst (creds_fields ex))"
      "map_of (creds_fields ex) ''access_token'' = Some (JStr ''token-0'')"
      "''token-0'' \<noteq> []"
      "map_of (creds_fields ex) ''token_expiry'' = Some (JStr ex)" for ex
    by (simp_all add: sample_world_def creds_fields_def)
  have p: "JSON_parse sample_runtime (content (File True True (creds_text year_2030))) =
         Some (JObj (creds_fields year_2030))"
      "JSON_parse sample_runtime (content (File True True (creds_text year_2020))) =
         Some (JObj (creds_fields year_2020))"
      "JSON_parse sample_runtime (content (File True True (creds_text no_date))) =
         Some (JObj (creds_fields no_date))"
      "year_2030 \<noteq> []" "year_2020 \<noteq> []" "no_date \<noteq> []"
    by (simp_all add: sample_defs)
  have v: "\<exists>expiry. Date_parse sample_runtime year_2030 = Some expiry \<and> now ?v + 5 * 60 * 1000 < expiry"
    by (simp add: sample_defs)
  have s: "\<not> (\<exists>expiry. Date_parse sample_runtime year_2020 = Some expiry \<and> now ?s + 5 * 60 * 1000 < expiry)"
    by (simp add: sample_defs)
  have n: "\<not> (\<exists>expiry. Date_parse sample_runtime no_date = Some expiry \<and> now ?n + 5 * 60 * 1000 < expiry)"
    by (simp add: sample_defs)
  have "getAccessToken sample_runtime ?v = (Inr (Some (JStr ''token-0'')), ?v)"
    by (rule getAccessToken_refresh_safety [OF h(1,2) p(1) h(3-6) p(4), THEN conjunct1, THEN mp, OF v])
  moreover have "\<exists>rec. oauth_file (snd (getAccessToken sample_runtime ?s)) =
        Some (File True True (compact (JObj rec))) \<and>
      map_of rec ''access_token'' = Some (JStr ''token-1'') \<and>
      map_of rec ''token_expiry'' = Some (JStr ''2027-01-15T08:59:59.120Z'') \<and>
      map_of rec ''refresh_token'' = Some (JStr ''refresh-1'')"
  proof -
    have run: "getAccessToken sample_runtime ?s =
        (Inr (Some (JStr ''token-1'')), snd (getAccessToken sample_runtime ?s))"
      using sample_stale_run [of event_created]
      by (cases "getAccessToken sample_runtime ?s") simp
    let ?w' = "snd (getAccessToken sample_runtime ?s)"
    note t = getAccessToken_refresh_safety [OF h(1,2) p(2) h(3-6) p(5), THEN conjunct2, rule_format,
        OF s run, THEN conjunct2, rule_format, OF refl]
    from t show ?thesis
    proof (elim exE conjE, goal_cases)
      case (1 rec ex' res data)
      from 1(1) have res: "res = token_granted"
        by (simp add: sample_world_def sample_network_def token_request_def)
      from 1(3) res have data:
        "data = JObj [(''access_token'', JStr ''token-1''), (''expires_in'', JNum 3599)]"
        by (simp add: sample_defs)
      from 1(6) have now: "now ?w' = 1800000000120"
        by (simp add: sample_world_def sample_network_def token_request_def)
      from 1(5) [rule_format, of 3599] data now have "ex' = ''2027-01-15T08:59:59.120Z''"
        by (simp add: sample_runtime_def)
      moreover from 1(11) [rule_format, of "''refresh_token''"]
      have "map_of rec ''refresh_token'' = Some (JStr ''refresh-1'')"
        by (simp add: creds_fields_def)
      ultimately show ?case using 1(8,9,10)
        by (intro exI [of _ rec]) (simp add: sample_runtime_def)
    qed
  qed
  moreover have "\<exists>rest. trace (snd (getAccessToken sample_runtime ?n)) =
        Sent (token_request (creds_doc no_date)) # rest"
  proof -
    have post: "postable (JObj (creds_fields no_date))"
      by (simp add: postable_def converts_def creds_fields_def)
    have run: "getAccessToken sample_runtime ?n =
        (fst (getAccessToken sample_runtime ?n), snd (getAccessToken sample_runtime ?n))"
      by simp
    have "\<exists>rest. trace (snd (getAccessToken sample_runtime ?n)) =
        trace ?n @ Sent (token_request (JObj (creds_fields no_date))) # rest"
      by (rule getAccessToken_refresh_safety [OF h(1,2) p(3) h(3-6) p(6), THEN conjunct2,
            rule_format, OF n run, THEN conjunct1, THEN mp, OF post])
    then show ?thesis by (simp add: sample_world_def creds_doc_def)
  qed
  ultimately show ?thesis by blast
qed

text \<open>
  Claim C10. If the stored \<^verbatim>\<open>access_token\<close> or \<^verbatim>\<open>token_expiry\<close> is missing or empty,
  \<open>getAccessToken\<close> sends the refresh request whatever the clock says. A token it returns
  is the one of the provider's answer, never the stored one, and the last thing that
  happened is the write of the merged record to the file: the record with the new token,
  with the expiry computed from the lifetime of the provider's answer, and with every
  other key as before. A failure leaves the file as it was.
\<close>

theorem getAccessToken_missing_fields:
  assumes "oauth_file w = Some f" and "readable f"
      and "JSON_parse rt (content f) = Some (JObj kvs)" and "distinct (map fst kvs)"
      and "\<not> truthy (map_of kvs ''access_token'') \<or> \<not> truthy (map_of kvs ''token_expiry'')"
      and "getAccessToken rt w = (r, w')"
  shows "(postable (JObj kvs) \<longrightarrow>
            (\<exists>rest. trace w' = trace w @ Sent (token_request (JObj kvs)) # rest)) \<and>
         (\<forall>new. r = Inr new \<longrightarrow>
            (\<exists>rec ex' res data.
               outcome (network w (trace w @ [Sent (token_request (JObj kvs))])) = Inr res \<and>
               status res = 200 \<and> JSON_parse rt (body res) = Some data \<and>
               new = opt_prop (Some data) ''access_token'' \<and>
               (\<forall>n. opt_prop (Some data) ''expires_in'' = Some (JNum n) \<and>
                    \<bar>now w' + n * 1000\<bar> \<le> 8640000000000000 \<longrightarrow>
                    ex' = toISOString rt (now w' + n * 1000)) \<and>
               now w' = now w + elapsed (network w (trace w @ [Sent (token_request (JObj kvs))])) \<and>
               trace w' = trace w @ [Sent (token_request (JObj kvs)),
                                     Wrote (JSON_stringify rt 2 (JObj rec))] \<and>
               oauth_file w' = Some (File True True (JSON_stringify rt 2 (JObj rec))) \<and>
               map_of rec ''access_token'' = new \<and>
               map_of rec ''token_expiry'' = Some (JStr ex') \<and>
               (\<forall>k. k \<noteq> ''access_token'' \<and> k \<noteq> ''token_expiry'' \<longrightarrow>
                    map_of rec k = map_of kvs k))) \<and>
         (\<forall>e. r = Inl e \<longrightarrow> oauth_file w' = oauth_file w)"
proof (intro conjI impI allI)
  assume post: "postable (JObj kvs)"
  note nv = not_valid_without_fields [OF assms(5), of rt "now w"]
  from getAccessToken_refresh_sends [OF assms(1-3) _ nv post assms(6)]
  show "\<exists>rest. trace w' = trace w @ Sent (token_request (JObj kvs)) # rest" by simp
next
  fix new assume "r = Inr new"
  with assms(6) have run: "getAccessToken rt w = (Inr new, w')" by simp
  note nv = not_valid_without_fields [OF assms(5), of rt "now w"]
  from refresh_persists [OF assms(1-4) nv run]
  show "\<exists>rec ex' res data.
               outcome (network w (trace w @ [Sent (token_request (JObj kvs))])) = Inr res \<and>
               status res = 200 \<and> JSON_parse rt (body res) = Some data \<and>
               new = opt_prop (Some data) ''access_token'' \<and>
               (\<forall>n. opt_prop (Some data) ''expires_in'' = Some (JNum n) \<and>
                    \<bar>now w' + n * 1000\<bar> \<le> 8640000000000000 \<longrightarrow>
                    ex' = toISOString rt (now w' + n * 1000)) \<and>
               now w' = now w + elapsed (network w (trace w @ [Sent (token_request (JObj kvs))])) \<and>
               trace w' = trace w @ [Sent (token_request (JObj kvs)),
                                     Wrote (JSON_stringify rt 2 (JObj rec))] \<and>
               oauth_file w' = Some (File True True (JSON_stringify rt 2 (JObj rec))) \<and>
               map_of rec ''access_token'' = new \<and>
               map_of rec ''token_expiry'' = Some (JStr ex') \<and>
               (\<forall>k. k \<noteq> ''access_token'' \<and> k \<noteq> ''token_expiry'' \<longrightarrow>
                    map_of rec k = map_of kvs k)"
    .
next
  fix e assume "r = Inl e"
  with assms(6) show "oauth_file w' = oauth_file w"
    using getAccessToken_error_keeps_file by simp
qed

theorem getAccessToken_missing_fields_witness:
  "(\<exists>rest. trace (snd (getAccessToken sample_runtime
       (sample_world (Some (File True True bare_creds_text)) token_granted event_created))) =
      Sent (token_request bare_creds_doc) # rest) \<and>
   (\<exists>rec. oauth_file (snd (getAccessToken sample_runtime
         (sample_world (Some (File True True bare_creds_text)) token_granted event_created))) =
        Some (File True True (compact (JObj rec))) \<and>
      map_of rec ''access_token'' = Some (JStr ''token-1'') \<and>
      map_of rec ''token_expiry'' = Some (JStr ''2027-01-15T08:59:59.120Z'') \<and>
      map_of rec ''refresh_token'' = Some (JStr ''refresh-1''))"
proof -
  let ?s = "sample_world (Some (File True True bare_creds_text)) token_granted event_created"
  let ?w' = "snd (getAccessToken sample_runtime ?s)"
  have h: "oauth_file ?s = Some (File True True bare_creds_text)"
    "readable (File True True bare_creds_text)"
    "JSON_parse sample_runtime (content (File True True bare_creds_text)) = Some (JObj bare_creds_fields)"
    "distinct (map fst bare_creds_fields)"
    "\<not> truthy (map_of bare_creds_fields ''access_token'') \<or>
     \<not> truthy (map_of bare_creds_fields ''token_expiry'')"
    by (simp_all add: sample_defs)
  have post: "postable (JObj bare_creds_fields)"
    by (simp add: postable_def converts_def bare_creds_fields_def)
  have run: "getAccessToken sample_runtime ?s = (Inr (Some (JStr ''token-1'')), ?w')"
    using sample_bare_run [of event_created]
    by (cases "getAccessToken sample_runtime ?s") simp
  note t = getAccessToken_missing_fields [OF h run]
  have "\<exists>rest. trace ?w' = trace ?s @ Sent (token_request (JObj bare_creds_fields)) # rest"
    by (rule t [THEN conjunct1, THEN mp, OF post])
  then have a: "\<exists>rest. trace ?w' = Sent (token_request bare_creds_doc) # rest"
    by (simp add: bare_creds_doc_def sample_world_def)
  have "\<exists>rec. oauth_file ?w' = Some (File True True (compact (JObj rec))) \<and>
      map_of rec ''access_token'' = Some (JStr ''token-1'') \<and>
      map_of rec ''token_expiry'' = Some (JStr ''2027-01-15T08:59:59.120Z'') \<and>
      map_of rec ''refresh_token'' = Some (JStr ''refresh-1'')"
    using t [THEN conjunct2, THEN conjunct1, rule_format, OF refl]
  proof (elim exE conjE, goal_cases)
    case (1 rec ex' res data)
    from 1(1) have res: "res = token_granted"
      by (simp add: sample_world_def sample_network_def token_request_def)
    from 1(3) res have data:
      "data = JObj [(''access_token'', JStr ''token-1''), (''expires_in'', JNum 3599)]"
      by (simp add: sample_defs)
    from 1(6) have now: "now ?w' = 1800000000120"
      by (simp add: sample_world_def sample_network_def token_request_def)
    from 1(5) [rule_format, of 3599] data now have "ex' = ''2027-01-15T08:59:59.120Z''"
      by (simp add: sample_runtime_def)
    moreover from 1(11) [rule_format, of "''refresh_token''"]
    have "map_of rec ''refresh_token'' = Some (JStr ''refresh-1'')"
      by (simp add: bare_creds_fields_def)
    ultimately show ?case using 1(8,9,10)
      by (intro exI [of _ rec]) (simp add: sample_runtime_def)
  qed
  with a show ?thesis by blast
qed

text \<open>
  Claim C6. A run of \<open>getAccessToken\<close> on a credential record either leaves the file
  untouched or, when it refreshed, replaces it in one write by the serialisation of a
  whole record. That record has the new access token and a new expiry, and agrees with
  the prior record on every other key, in particular on the refresh token, the client id
  and the client secret.
\<close>

theorem refresh_replaces_token_and_expiry_only:
  assumes "oauth_file w = Some f" and "readable f"
      and "JSON_parse rt (content f) = Some (JObj kvs)" and "distinct (map fst kvs)"
      and "getAccessToken rt w = (r, w')"
  shows "(\<forall>e. r = Inl e \<longrightarrow> oauth_file w' = oauth_file w) \<and>
         (\<forall>new. r = Inr new \<longrightarrow>
            w' = w \<or>
            (\<exists>rec ex.
               trace w' = trace w @ [Sent (token_request (JObj kvs)),
                                     Wrote (JSON_stringify rt 2 (JObj rec))] \<and>
               oauth_file w' = Some (File True True (JSON_stringify rt 2 (JObj rec))) \<and>
               map_of rec ''access_token'' = new \<and>
               map_of rec ''token_expiry'' = Some (JStr ex) \<and>
               map_of rec ''refresh_token'' = map_of kvs ''refresh_token'' \<and>
               map_of rec ''client_id'' = map_of kvs ''client_id'' \<and>
               map_of rec ''client_secret'' = map_of kvs ''client_secret'' \<and>
               (\<forall>k. k \<noteq> ''access_token'' \<and> k \<noteq> ''token_expiry'' \<longrightarrow> map_of rec k = map_of kvs k)))"
proof (intro conjI impI allI)
  fix e assume "r = Inl e"
  with assms(5) show "oauth_file w' = oauth_file w"
    using getAccessToken_error_keeps_file by simp
next
  fix new assume "r = Inr new"
  with assms(5) have run: "getAccessToken rt w = (Inr new, w')" by simp
  show "w' = w \<or>
            (\<exists>rec ex.
               trace w' = trace w @ [Sent (token_request (JObj kvs)),
                                     Wrote (JSON_stringify rt 2 (JObj rec))] \<and>
               oauth_file w' = Some (File True True (JSON_stringify rt 2 (JObj rec))) \<and>
               map_of rec ''access_token'' = new \<and>
               map_of rec ''token_expiry'' = Some (JStr ex) \<and>
               map_of rec ''refresh_token'' = map_of kvs ''refresh_token'' \<and>
               map_of rec ''client_id'' = map_of kvs ''client_id'' \<and>
               map_of rec ''client_secret'' = map_of kvs ''client_secret'' \<and>
               (\<forall>k. k \<noteq> ''access_token'' \<and> k \<noteq> ''token_expiry'' \<longrightarrow> map_of rec k = map_of kvs k))"
  proof (cases "still_valid rt (JObj kvs) (now w)")
    case (Inl e)
    from getAccessToken_throwing_path [OF assms(1-3) Inl] run show ?thesis by simp
  next
    case (Inr valid)
    show ?thesis
    proof (cases valid)
      case True
      with Inr have "still_valid rt (JObj kvs) (now w) = Inr True" by simp
      from getAccessToken_valid_path [OF assms(1-3) this] run show ?thesis by simp
    next
      case False
      with Inr have nv: "still_valid rt (JObj kvs) (now w) = Inr False" by simp
    from getAccessToken_refresh_ok [OF assms(1-3) _ nv run] obtain fresh where
      f: "access_token fresh = new"
         "trace w' = trace w @ [Sent (token_request (JObj kvs)), Wrote (persisted rt (JObj kvs) fresh)]"
         "oauth_file w' = Some (File True True (persisted rt (JObj kvs) fresh))"
      by auto
    let ?rec = "defined_entries (merged (JObj kvs) fresh)"
    note l = merged_lookup [OF assms(4), of fresh]
    have "trace w' = trace w @ [Sent (token_request (JObj kvs)),
                                     Wrote (JSON_stringify rt 2 (JObj ?rec))]"
      "oauth_file w' = Some (File True True (JSON_stringify rt 2 (JObj ?rec)))"
      using f by (simp_all add: persisted_def)
    moreover have "map_of ?rec ''access_token'' = new"
      "map_of ?rec ''token_expiry'' = Some (JStr (token_expiry fresh))"
      "map_of ?rec ''refresh_token'' = map_of kvs ''refresh_token''"
      "map_of ?rec ''client_id'' = map_of kvs ''client_id''"
      "map_of ?rec ''client_secret'' = map_of kvs ''client_secret''"
      "\<forall>k. k \<noteq> ''access_token'' \<and> k \<noteq> ''token_expiry'' \<longrightarrow> map_of ?rec k = map_of kvs k"
      using f(1) by (simp_all add: l)
    ultimately show ?thesis by blast
    qed
  qed
qed

theorem refresh_replaces_token_and_expiry_only_witness:
  "\<exists>rec ex.
     oauth_file (snd (getAccessToken sample_runtime
        (sample_world (Some (File True True (creds_text year_2020))) token_granted event_created))) =
       Some (File True True (compact (JObj rec))) \<and>
     map_of rec ''access_token'' = Some (JStr ''token-1'') \<and>
     map_of rec ''token_expiry'' = Some (JStr ex) \<and>
     map_of rec ''refresh_token'' = Some (JStr ''refresh-1'') \<and>
     map_of rec ''client_id'' = Some (JStr ''client-1'') \<and>
     map_of rec ''client_secret'' = Some (JStr ''secret-1'')"
proof -
  let ?s = "sample_world (Some (File True True (creds_text year_2020))) token_granted event_created"
  have h: "oauth_file ?s = Some (File True True (creds_text year_2020))"
    "readable (File True True (creds_text year_2020))"
    "JSON_parse sample_runtime (content (File True True (creds_text year_2020))) =
       Some (JObj (creds_fields year_2020))"
    "distinct (map fst (creds_fields year_2020))"
    by (simp_all add: sample_defs)
  have run: "getAccessToken sample_runtime ?s =
      (Inr (Some (JStr ''token-1'')), snd (getAccessToken sample_runtime ?s))"
    using sample_stale_run [of event_created] by (metis prod.collapse)
  have ne: "snd (getAccessToken sample_runtime ?s) \<noteq> ?s"
    using sample_stale_trace [of event_created] by (auto simp: sample_world_def)
  from refresh_replaces_token_and_expiry_only [OF h run] ne obtain rec ex where
    "oauth_file (snd (getAccessToken sample_runtime ?s)) =
       Some (File True True (JSON_stringify sample_runtime 2 (JObj rec)))"
    "map_of rec ''access_token'' = Some (JStr ''token-1'')"
    "map_of rec ''token_expiry'' = Some (JStr ex)"
    "map_of rec ''refresh_token'' = map_of (creds_fields year_2020) ''refresh_token''"
    "map_of rec ''client_id'' = map_of (creds_fields year_2020) ''client_id''"
    "map_of rec ''client_secret'' = map_of (creds_fields year_2020) ''client_secret''"
    by blast
  then show ?thesis
    by (intro exI [of _ rec] exI [of _ ex]) (simp add: sample_runtime_def creds_fields_def)
qed

section \<open>Properties of the calendar write client\<close>

lemma getAccessToken_trace:
  assumes run: "getAccessToken rt w = (r, w')"
  shows "network w' = network w \<and>
         (trace w' = trace w \<or>
          (\<exists>c. trace w' = trace w @ [Sent (token_request c)]) \<or>
          (\<exists>c t. trace w' = trace w @ [Sent (token_request c), Wrote t]))"
proof (cases "oauth_file w")
  case None
  with run show ?thesis by (auto simp: getAccessToken_def)
next
  case (Some f)
  show ?thesis
  proof (cases "readable f")
    case False
    with Some run show ?thesis by (auto simp: getAccessToken_def)
  next
    case True
    show ?thesis
    proof (cases "JSON_parse rt (content f)")
      case None
      with Some True run show ?thesis by (auto simp: getAccessToken_def)
    next
      case (Some creds)
      note c = Some
      show ?thesis
      proof (cases "creds = JNull \<or> still_valid rt creds (now w) \<noteq> Inr False")
        case True
        with \<open>oauth_file w = Some f\<close> \<open>readable f\<close> c run show ?thesis
          by (cases creds) (auto simp: getAccessToken_def split: if_splits sum.splits bool.splits)
      next
        case False
        then have n: "creds \<noteq> JNull" "still_valid rt creds (now w) = Inr False" by simp_all
        note p = getAccessToken_refresh_path [OF \<open>oauth_file w = Some f\<close> \<open>readable f\<close> c n]
        obtain r0 w0 where r: "refreshToken rt creds w = (r0, w0)"
          by (cases "refreshToken rt creds w") auto
        show ?thesis
        proof (cases "postable creds")
          case True
          from refreshToken_effect [OF r True] have
            "trace w0 = trace w @ [Sent (token_request creds)]" "network w0 = network w"
            by simp_all
          with p r run show ?thesis by (auto split: sum.splits if_splits)
        next
          case False
          from refreshToken_not_postable [OF False, of rt w] r have "r0 = Inl TypeError" "w0 = w"
            by simp_all
          with p r run show ?thesis by auto
        qed
      qed
    qed
  qed
qed

lemma getAccessToken_keeps_create_calls:
  assumes "getAccessToken rt w = (r, w')" and "Sent (EventsInsert a b) \<in> set (trace w')"
  shows "Sent (EventsInsert a b) \<in> set (trace w)"
  using getAccessToken_trace [OF assms(1)] assms(2) by (auto simp: token_request_def)


lemma createCalendarEvent_payloads:
  assumes run: "createCalendarEvent rt proposal w = (r, w')"
      and sent: "Sent (EventsInsert a b) \<in> set (trace w')"
  shows "Sent (EventsInsert a b) \<in> set (trace w) \<or>
         b = JSON_stringify rt 0 (JObj (defined_entries (event_payload rt proposal)))"
proof -
  obtain r1 w1 where g1: "getAccessToken rt w = (r1, w1)" by (cases "getAccessToken rt w") auto
  note f1 = getAccessToken_keeps_create_calls [OF g1]
  show ?thesis
  proof (cases r1)
    case (Inl e)
    with run g1 have "w' = w1" by (simp add: createCalendarEvent_def)
    with sent f1 show ?thesis by blast
  next
    case (Inr token)
    show ?thesis
    proof (cases "converts token")
      case False
      with run g1 Inr have "w' = w1" by (simp add: createCalendarEvent_def)
      with sent f1 show ?thesis by blast
    next
      case ct: True
    obtain r2 w2 where h2: "httpsRequest (events_request rt token proposal) w1 = (r2, w2)"
      by (cases "httpsRequest (events_request rt token proposal) w1") auto
    from httpsRequest_effect [OF h2] have
      t2: "trace w2 = trace w1 @ [Sent (events_request rt token proposal)]" by simp
    have k2: ?thesis if "Sent (EventsInsert a b) \<in> set (trace w2)"
    proof (cases "Sent (EventsInsert a b) \<in> set (trace w1)")
      case True
      with f1 show ?thesis by blast
    next
      case False
      with that t2 have "EventsInsert a b = events_request rt token proposal" by simp
      then show ?thesis by (simp add: events_request_def)
    qed
    show ?thesis
    proof (cases r2)
      case (Inl e)
      with run g1 Inr h2 ct have "w' = w2" by (simp add: createCalendarEvent_def)
      with sent k2 show ?thesis by simp
    next
      case res: (Inr res)
      show ?thesis
      proof (cases "status res = 401")
        case False
        with run g1 Inr h2 res ct have "w' = w2"
          by (simp add: createCalendarEvent_def split: if_splits)
        with sent k2 show ?thesis by simp
      next
        case True
        let ?w2' = "log_warn ''Calendar API returned 401, retrying with fresh token'' w2"
        obtain r3 w3 where g3: "getAccessToken rt ?w2' = (r3, w3)"
          by (cases "getAccessToken rt ?w2'") auto
        have k3: ?thesis if "Sent (EventsInsert a b) \<in> set (trace w3)"
        proof -
          from getAccessToken_keeps_create_calls [OF g3 that]
          have "Sent (EventsInsert a b) \<in> set (trace w2)" by (simp add: log_warn_def)
          then show ?thesis by (rule k2)
        qed
        show ?thesis
        proof (cases r3)
          case (Inl e)
          with run g1 Inr h2 res True g3 ct have "w' = w3" by (simp add: createCalendarEvent_def)
          with sent k3 show ?thesis by simp
        next
          case fresh: (Inr freshToken)
          show ?thesis
          proof (cases "converts freshToken")
            case False
            with run g1 Inr h2 res True g3 fresh ct have "w' = w3"
              by (simp add: createCalendarEvent_def)
            with sent k3 show ?thesis by simp
          next
            case cf: True
          obtain r4 w4 where h4: "httpsRequest (events_request rt freshToken proposal) w3 = (r4, w4)"
            by (cases "httpsRequest (events_request rt freshToken proposal) w3") auto
          from httpsRequest_effect [OF h4] have
            t4: "trace w4 = trace w3 @ [Sent (events_request rt freshToken proposal)]" by simp
          from run g1 Inr h2 res True g3 fresh h4 ct cf have w4: "w' = w4"
            by (cases r4) (auto simp: createCalendarEvent_def split: if_splits)
          show ?thesis
          proof (cases "Sent (EventsInsert a b) \<in> set (trace w3)")
            case True
            then show ?thesis by (rule k3)
          next
            case False
            with sent w4 t4 have "EventsInsert a b = events_request rt freshToken proposal" by simp
            then show ?thesis by (simp add: events_request_def)
          qed
          qed
        qed
      qed
    qed
    qed
  qed
qed

lemma fst_set_defined_entries: "k \<in> fst ` set (defined_entries xs) \<Longrightarrow> k \<in> fst ` set xs"
  by (induction xs rule: defined_entries.induct) auto

lemmas create_defs = createCalendarEvent_def events_request_def log_warn_def api_error_def
  parseApiError_def js_or_def number_str_def int_str_def dec.simps digit_char_def





text \<open>
  Claim C5. Every create call that \<open>createCalendarEvent\<close> sends carries the serialisation
  of an event object that has no \<^verbatim>\<open>attendees\<close> key at all when the proposal's attendee
  list is empty, and whose \<^verbatim>\<open>attendees\<close> is otherwise the array of one \<^verbatim>\<open>{email}\<close> object
  per attendee, in order.
\<close>

theorem event_payload_attendees:
  assumes "createCalendarEvent rt proposal w = (r, w')"
      and "Sent (EventsInsert a b) \<in> set (trace w')"
      and "Sent (EventsInsert a b) \<notin> set (trace w)"
  shows "\<exists>event. b = JSON_stringify rt 0 (JObj event) \<and>
           (attendees proposal = [] \<longrightarrow> ''attendees'' \<notin> fst ` set event) \<and>
           (attendees proposal \<noteq> [] \<longrightarrow>
              map_of event ''attendees'' =
                Some (JArr (map (\<lambda>email. JObj [(''email'', JStr email)]) (attendees proposal))))"
proof -
  let ?event = "defined_entries (event_payload rt proposal)"
  from createCalendarEvent_payloads [OF assms(1,2)] assms(3)
  have "b = JSON_stringify rt 0 (JObj ?event)" by simp
  moreover have "''attendees'' \<notin> fst ` set (event_payload rt proposal)"
    if "attendees proposal = []"
    using that by (simp add: event_payload_def)
  then have "attendees proposal = [] \<longrightarrow> ''attendees'' \<notin> fst ` set ?event"
    using fst_set_defined_entries [of "''attendees''" "event_payload rt proposal"] by blast
  moreover have "attendees proposal \<noteq> [] \<longrightarrow>
       map_of ?event ''attendees'' =
         Some (JArr (map (\<lambda>email. JObj [(''email'', JStr email)]) (attendees proposal)))"
    by (auto simp: event_payload_def js_or_def)
  ultimately show ?thesis by blast
qed

theorem event_payload_attendees_witness:
  "(\<exists>event. payload (events_request sample_runtime (Some (JStr ''token-0'')) coffee) =
       compact (JObj event) \<and>
       map_of event ''attendees'' = Some (JArr [JObj [(''email'', JStr ''alice@example.com'')]])) \<and>
   (\<exists>event. payload (events_request sample_runtime (Some (JStr ''token-0''))
                        (coffee\<lparr>attendees := []\<rparr>)) =
       compact (JObj event) \<and> ''attendees'' \<notin> fst ` set event)"
proof -
  let ?w = "sample_world (Some (File True True (creds_text year_2030))) token_granted event_created"
  let ?tok = "Some (JStr ''token-0'')"
  have g: "getAccessToken sample_runtime ?w = (Inr ?tok, ?w)"
    by (simp add: sample_defs run_defs)
  have sent: "Sent (EventsInsert (authorization (events_request sample_runtime ?tok p))
                                 (payload (events_request sample_runtime ?tok p)))
          \<in> set (trace (snd (createCalendarEvent sample_runtime p ?w)))" for p
    unfolding createCalendarEvent_def g
    by (simp add: httpsRequest_def events_request_def Let_def sample_world_def sample_network_def
          event_created_def converts_def)
  have fresh: "Sent (EventsInsert a b) \<notin> set (trace ?w)" for a b
    by (simp add: sample_world_def)
  have run: "createCalendarEvent sample_runtime p ?w =
       (fst (createCalendarEvent sample_runtime p ?w), snd (createCalendarEvent sample_runtime p ?w))" for p
    by simp
  from event_payload_attendees [OF run sent fresh, of coffee]
  have "\<exists>event. payload (events_request sample_runtime ?tok coffee) = compact (JObj event) \<and>
       map_of event ''attendees'' = Some (JArr [JObj [(''email'', JStr ''alice@example.com'')]])"
    by (simp add: coffee_def sample_runtime_def)
  moreover from event_payload_attendees [OF run sent fresh, of "coffee\<lparr>attendees := []\<rparr>"]
  have "\<exists>event. payload (events_request sample_runtime ?tok (coffee\<lparr>attendees := []\<rparr>)) =
       compact (JObj event) \<and> ''attendees'' \<notin> fst ` set event"
    by (simp add: sample_runtime_def)
  ultimately show ?thesis by blast
qed

text \<open>
  Claim C1. After a 401 the source calls \<open>getAccessToken\<close> again and retries once. With a
  stored token whose expiry is years ahead and a calendar API that answers 401, the second
  call of \<open>getAccessToken\<close> returns the stored token again: no request goes to the token
  endpoint, the retry carries the same bearer token as the first call, and the second 401
  is surfaced as the error.
\<close>

theorem createCalendarEvent_unauthorized_reuses_token:
  "createCalendarEvent sample_runtime coffee
     (sample_world (Some (File True True (creds_text year_2030))) token_granted unauthorized) =
     (Inl (Error ''Calendar API error 401: Invalid Credentials''),
      (sample_world (Some (File True True (creds_text year_2030))) token_granted unauthorized)
        \<lparr>now := 1800000000160,
         trace := [Sent (events_request sample_runtime (Some (JStr ''token-0'')) coffee),
                   Warned ''Calendar API returned 401, retrying with fresh token'',
                   Sent (events_request sample_runtime (Some (JStr ''token-0'')) coffee)]\<rparr>)"
  by (simp add: sample_defs run_defs create_defs)

section \<open>Properties of the approval channel\<close>

text \<open>
  Claim C9. \<open>sendEventProposal\<close> never raises. It returns the id of the delivered message,
  as a decimal string, when the Bot API accepts the message; it returns \<^verbatim>\<open>undefined\<close> when
  the Bot API throws or when the bot is not set, and then nothing is delivered. In every
  case the table of proposals is what it was, so a pending proposal stays pending.
\<close>

theorem sendEventProposal_handle:
  assumes "sendEventProposal fmt jid proposal c = (r, c')"
  shows "(\<exists>handle. r = Inr handle) \<and>
         event_proposals c' = event_proposals c \<and>
         (\<not> bot c \<longrightarrow> r = Inr None \<and> delivered c' = delivered c) \<and>
         (bot c \<longrightarrow>
            (\<forall>err. api_sendMessage c (Message (numeric_id jid) (proposal_text fmt proposal)
                                        (event_keyboard proposal)) = Inl err \<longrightarrow>
                   r = Inr None \<and> delivered c' = delivered c) \<and>
            (\<forall>message_id. api_sendMessage c (Message (numeric_id jid) (proposal_text fmt proposal)
                                        (event_keyboard proposal)) = Inr message_id \<longrightarrow>
                   r = Inr (Some (int_str message_id))))"
  using assms
  by (auto simp: sendEventProposal_def try_send_def Let_def split: if_splits sum.splits)

theorem sendEventProposal_handle_witness:
  "fst (sendEventProposal sample_formatting ''tg:42'' coffee (sample_channel True api_delivers)) =
     Inr (Some ''4711'') \<and>
   fst (sendEventProposal sample_formatting ''tg:42'' coffee (sample_channel True api_fails)) =
     Inr None \<and>
   fst (sendEventProposal sample_formatting ''tg:42'' coffee (sample_channel False api_delivers)) =
     Inr None \<and>
   event_proposals (snd (sendEventProposal sample_formatting ''tg:42'' coffee
                           (sample_channel True api_fails))) ''prop-1'' = Some coffee"
proof -
  have run: "sendEventProposal sample_formatting ''tg:42'' coffee c =
      (fst (sendEventProposal sample_formatting ''tg:42'' coffee c),
       snd (sendEventProposal sample_formatting ''tg:42'' coffee c))" for c
    by simp
  note t = sendEventProposal_handle [OF run]
  have "fst (sendEventProposal sample_formatting ''tg:42'' coffee (sample_channel True api_delivers)) =
     Inr (Some ''4711'')"
    using t [of "sample_channel True api_delivers"]
    by (simp add: sample_channel_def api_delivers_def int_str_def dec.simps digit_char_def)
  moreover have "fst (sendEventProposal sample_formatting ''tg:42'' coffee (sample_channel True api_fails)) =
     Inr None"
    using t [of "sample_channel True api_fails"]
    by (simp add: sample_channel_def api_fails_def)
  moreover have "fst (sendEventProposal sample_formatting ''tg:42'' coffee (sample_channel False api_delivers)) =
     Inr None"
    using t [of "sample_channel False api_delivers"]
    by (simp add: sample_channel_def)
  moreover have "event_proposals (snd (sendEventProposal sample_formatting ''tg:42'' coffee
                           (sample_channel True api_fails))) ''prop-1'' = Some coffee"
    using t [of "sample_channel True api_fails"]
    by (simp add: sample_channel_def)
  ultimately show ?thesis by blast
qed

lemma split_from_plain: "sep \<notin> set a \<Longrightarrow> split_from sep cur a = [cur @ a]"
  by (induction a arbitrary: cur) auto

lemma split_from_field:
  "sep \<notin> set a \<Longrightarrow> split_from sep cur (a @ sep # rest) = (cur @ a) # split_from sep [] rest"
  by (induction a arbitrary: cur) auto

lemma split_event_data:
  assumes "CHR '':'' \<notin> set tag" and "CHR '':'' \<notin> set i"
  shows "split (''event:'' @ tag @ '':'' @ i) CHR '':'' = [''event'', tag, i]"
proof -
  have "split_from CHR '':'' [] (''event'' @ CHR '':'' # (tag @ CHR '':'' # i)) =
          ([] @ ''event'') # split_from CHR '':'' [] (tag @ CHR '':'' # i)"
    by (rule split_from_field) simp
  also have "split_from CHR '':'' [] (tag @ CHR '':'' # i) = ([] @ tag) # split_from CHR '':'' [] i"
    using assms(1) by (rule split_from_field)
  also have "split_from CHR '':'' [] i = [[] @ i]"
    using assms(2) by (rule split_from_plain)
  finally show ?thesis by (simp add: split_def)
qed

text \<open>
  Claim C4, as stated, fails: the second button of the keyboard carries the tag
  \<^verbatim>\<open>skip\<close>, not \<^verbatim>\<open>reject\<close>, and the handler passes an event with the unknown tag
  \<^verbatim>\<open>snooze\<close> on to the host's callback, which acts on it.
\<close>

theorem action_tags_counterexample:
  "callback_data (event_keyboard coffee ! 1) = ''event:skip:prop-1'' \<and>
   on_callback_query (Some record_call) ''event:snooze:prop-1'' [] =
     [(Some ''prop-1'', Some ''snooze'')]"
  by (simp add: event_keyboard_def coffee_def on_callback_query_def startsWith_def split_def
        element_def record_call_def)

text \<open>
  Claim C4, amended. The two buttons carry \<^verbatim>\<open>event:approve:<id>\<close> and
  \<^verbatim>\<open>event:skip:<id>\<close>. The handler leaves the state alone when the callback data does not
  start with \<^verbatim>\<open>event:\<close> or when no callback is configured; otherwise it passes the tag and
  the id on to the callback, whatever the tag is. For a proposal id without a colon, the
  payloads of the two buttons reach the callback as that id with \<^verbatim>\<open>approve\<close> and with
  \<^verbatim>\<open>skip\<close>.
\<close>

theorem approval_actions:
  "map callback_data (event_keyboard proposal) =
     [''event:approve:'' @ id proposal, ''event:skip:'' @ id proposal] \<and>
   (\<not> startsWith data ''event:'' \<longrightarrow> on_callback_query onEventCallback data s = s) \<and>
   on_callback_query None data s = s \<and>
   (CHR '':'' \<notin> set tag \<and> CHR '':'' \<notin> set i \<longrightarrow>
      on_callback_query (Some callback) (''event:'' @ tag @ '':'' @ i) s = callback (Some i) (Some tag) s) \<and>
   (CHR '':'' \<notin> set (id proposal) \<longrightarrow>
      on_callback_query (Some callback) (''event:approve:'' @ id proposal) s =
        callback (Some (id proposal)) (Some ''approve'') s \<and>
      on_callback_query (Some callback) (''event:skip:'' @ id proposal) s =
        callback (Some (id proposal)) (Some ''skip'') s)"
proof -
  have fwd: "on_callback_query (Some callback) (''event:'' @ tag @ '':'' @ i) s =
               callback (Some i) (Some tag) s"
    if "CHR '':'' \<notin> set tag" "CHR '':'' \<notin> set i" for tag i
    using split_event_data [OF that]
    by (simp add: on_callback_query_def startsWith_def element_def)
  have "on_callback_query (Some callback) (''event:'' @ ''approve'' @ '':'' @ id proposal) s =
        callback (Some (id proposal)) (Some ''approve'') s"
    "on_callback_query (Some callback) (''event:'' @ ''skip'' @ '':'' @ id proposal) s =
        callback (Some (id proposal)) (Some ''skip'') s"
    if "CHR '':'' \<notin> set (id proposal)"
    using that by (intro fwd; simp)+
  then have btn: "CHR '':'' \<notin> set (id proposal) \<longrightarrow>
      on_callback_query (Some callback) (''event:approve:'' @ id proposal) s =
        callback (Some (id proposal)) (Some ''approve'') s \<and>
      on_callback_query (Some callback) (''event:skip:'' @ id proposal) s =
        callback (Some (id proposal)) (Some ''skip'') s"
    by simp
  have "map callback_data (event_keyboard proposal) =
     [''event:approve:'' @ id proposal, ''event:skip:'' @ id proposal]"
    by (simp add: event_keyboard_def)
  moreover have "\<not> startsWith data ''event:'' \<longrightarrow> on_callback_query onEventCallback data s = s"
    by (simp add: on_callback_query_def)
  moreover have "on_callback_query None data s = s"
    by (simp add: on_callback_query_def Let_def)
  ultimately show ?thesis using fwd btn by blast
qed

theorem approval_actions_witness:
  "map callback_data (event_keyboard coffee) = [''event:approve:prop-1'', ''event:skip:prop-1''] \<and>
   on_callback_query (Some record_call) ''hello'' [] = [] \<and>
   on_callback_query (Some record_call) ''event:approve:prop-1'' [] =
     [(Some ''prop-1'', Some ''approve'')] \<and>
   on_callback_query (Some record_call) ''event:skip:prop-1'' [] =
     [(Some ''prop-1'', Some ''skip'')]"
  using approval_actions [of coffee "''hello''" "Some record_call" "[]" "''skip''" "''prop-1''" record_call]
  by (simp add: coffee_def startsWith_def record_call_def)

section \<open>Properties of the proposal store\<close>

lemma race_resolved:
  assumes "s i = Some r" and "proposal_status r \<noteq> Pending"
  shows "race i callers s = (replicate (length callers) Conflict, s)"
  using assms by (induction callers) (simp_all add: transition_def)

text \<open>
  Claim C2. However many callers race to move one pending proposal out of \<open>Pending\<close>,
  and in whatever order the store serialises them, the first transition commits and
  every other caller receives a conflict: exactly one transition commits, and the stored
  status is the one the first caller asked for.
\<close>

theorem transition_race:
  assumes "s i = Some r" and "proposal_status r = Pending"
      and "callers \<noteq> []" and "\<forall>newStatus \<in> set callers. newStatus \<noteq> Pending"
  shows "fst (race i callers s) = Committed # replicate (length callers - 1) Conflict \<and>
         length (filter (\<lambda>x. x = Committed) (fst (race i callers s))) = 1 \<and>
         snd (race i callers s) = s(i \<mapsto> r\<lparr>proposal_status := hd callers\<rparr>)"
proof -
  from assms(3) obtain first rest where c: "callers = first # rest" by (cases callers) auto
  let ?s' = "s(i \<mapsto> r\<lparr>proposal_status := first\<rparr>)"
  have t: "transition i Pending first s = (Committed, ?s')"
    using assms(1,2) by (simp add: transition_def)
  from assms(4) c have "first \<noteq> Pending" by simp
  then have "race i rest ?s' = (replicate (length rest) Conflict, ?s')"
    by (intro race_resolved [where r = "r\<lparr>proposal_status := first\<rparr>"]) simp_all
  with t c show ?thesis by simp
qed

theorem transition_race_witness:
  "fst (race ''prop-1'' [Approved, Rejected, Expired] [''prop-1'' \<mapsto> coffee]) =
     [Committed, Conflict, Conflict] \<and>
   snd (race ''prop-1'' [Approved, Rejected, Expired] [''prop-1'' \<mapsto> coffee]) =
     [''prop-1'' \<mapsto> coffee\<lparr>proposal_status := Approved\<rparr>]"
proof -
  have "[''prop-1'' \<mapsto> coffee] ''prop-1'' = Some coffee" "proposal_status coffee = Pending"
    "[Approved, Rejected, Expired] \<noteq> []"
    "\<forall>newStatus \<in> set [Approved, Rejected, Expired]. newStatus \<noteq> Pending"
    by (simp_all add: coffee_def)
  from transition_race [where s = "[''prop-1'' \<mapsto> coffee]" and i = "''prop-1''" and r = coffee
      and callers = "[Approved, Rejected, Expired]", OF this]
  show ?thesis by simp
qed

end
